theory Spec2Isabelle
  imports Main "HOL-Library.Multiset"
begin

section \<open>Host primitives used by the task model\<close>

text \<open>
  The task model (\<^verbatim>\<open>src/unnamed/part_000\<close>) is JavaScript. A string is modelled
  as the \<^typ>\<open>string\<close> of its UTF-8 bytes; fields hold values of the types the source documents
  for them (text, timestamps and priority as strings, \<open>completed\<close> as a boolean, tags as
  a list of strings, nullable fields as options). JavaScript's \<open>x || d\<close> is written out
  per type: the empty string, \<open>false\<close>, \<open>null\<close> and \<open>undefined\<close> are falsy, an array
  never is.
\<close>

primrec startsWith :: "string \<Rightarrow> string \<Rightarrow> bool" where
  "startsWith s [] = True"
| "startsWith s (q # qs) = (case s of [] \<Rightarrow> False | c # cs \<Rightarrow> c = q \<and> startsWith cs qs)"

definition white_space :: "string list" where
  \<comment> \<open>The code points that \<open>String.prototype.trim\<close> strips (WhiteSpace and LineTerminator
      of ECMAScript), each as its UTF-8 bytes: U+0009 to U+000D, U+0020, U+00A0, U+1680,
      U+2000 to U+200A, U+2028, U+2029, U+202F, U+205F, U+3000 and U+FEFF.\<close>
  "white_space =
     [[CHR 0x09], [CHR 0x0A], [CHR 0x0B], [CHR 0x0C], [CHR 0x0D], [CHR 0x20],
      [CHR 0xC2, CHR 0xA0],
      [CHR 0xE1, CHR 0x9A, CHR 0x80],
      [CHR 0xE2, CHR 0x80, CHR 0x80], [CHR 0xE2, CHR 0x80, CHR 0x81],
      [CHR 0xE2, CHR 0x80, CHR 0x82], [CHR 0xE2, CHR 0x80, CHR 0x83],
      [CHR 0xE2, CHR 0x80, CHR 0x84], [CHR 0xE2, CHR 0x80, CHR 0x85],
      [CHR 0xE2, CHR 0x80, CHR 0x86], [CHR 0xE2, CHR 0x80, CHR 0x87],
      [CHR 0xE2, CHR 0x80, CHR 0x88], [CHR 0xE2, CHR 0x80, CHR 0x89],
      [CHR 0xE2, CHR 0x80, CHR 0x8A],
      [CHR 0xE2, CHR 0x80, CHR 0xA8], [CHR 0xE2, CHR 0x80, CHR 0xA9],
      [CHR 0xE2, CHR 0x80, CHR 0xAF],
      [CHR 0xE2, CHR 0x81, CHR 0x9F],
      [CHR 0xE3, CHR 0x80, CHR 0x80],
      [CHR 0xEF, CHR 0xBB, CHR 0xBF]]"

fun strip :: "string list \<Rightarrow> string \<Rightarrow> string" where
  \<comment> \<open>Drops from the front of the string every character whose bytes are in the table.\<close>
  "strip tbl [] = []"
| "strip tbl (c # cs) =
     (case find (\<lambda>ws. startsWith (c # cs) ws) tbl of
        None \<Rightarrow> c # cs
      | Some ws \<Rightarrow> strip tbl (drop (length ws - 1) cs))"

definition trim :: "string \<Rightarrow> string" where
  \<comment> \<open>\<open>String.prototype.trim\<close>: white space is stripped from the front, then from the end
      (the reversed string against the reversed byte sequences).\<close>
  "trim s = rev (strip (map rev white_space) (rev (strip white_space s)))"

definition lower_char :: "char \<Rightarrow> char" where
  "lower_char c =
     (let n = (of_char c :: nat) in if 65 \<le> n \<and> n \<le> 90 then char_of (n + 32) else c)"

definition ascii_lower :: "string \<Rightarrow> string" where
  \<comment> \<open>What \<open>toLowerCase\<close> does to a string of ASCII characters.\<close>
  "ascii_lower s = map lower_char s"

primrec includes_str :: "string \<Rightarrow> string \<Rightarrow> bool" where
  \<comment> \<open>\<open>s.includes(q)\<close>: \<open>q\<close> occurs in \<open>s\<close> as a contiguous substring.\<close>
  "includes_str [] q = (q = [])"
| "includes_str (c # cs) q = (startsWith (c # cs) q \<or> includes_str cs q)"

definition digit :: "nat \<Rightarrow> char" where
  "digit d = char_of (48 + d)"

fun show_nat :: "nat \<Rightarrow> string" where
  \<comment> \<open>Decimal rendering of a non-negative integer, as string concatenation does.\<close>
  "show_nat n = (if n < 10 then [digit n] else show_nat (n div 10) @ [digit (n mod 10)])"

declare show_nat.simps [simp del]

definition pad :: "nat \<Rightarrow> nat \<Rightarrow> string" where
  "pad k n = replicate (k - length (show_nat n)) (CHR ''0'') @ show_nat n"

definition civil :: "nat \<Rightarrow> nat \<times> nat \<times> nat" where
  \<comment> \<open>Days since 1970-01-01 to (year, month, day) of the proleptic Gregorian calendar.\<close>
  "civil days =
     (let z = days + 719468;
          era = z div 146097;
          doe = z mod 146097;
          yoe = (doe - doe div 1460 + doe div 36524 - doe div 146096) div 365;
          y = yoe + era * 400;
          doy = doe - (365 * yoe + yoe div 4 - yoe div 100);
          mp = (5 * doy + 2) div 153;
          d = doy - (153 * mp + 2) div 5 + 1;
          m = (if mp < 10 then mp + 3 else mp - 9)
      in (if m \<le> 2 then y + 1 else y, m, d))"

definition toISOString :: "nat \<Rightarrow> string" where
  \<comment> \<open>\<open>Date.prototype.toISOString\<close> of a time value in milliseconds since the epoch:
      \<open>YYYY-MM-DDTHH:mm:ss.sssZ\<close>, with the expanded year \<open>+YYYYYY\<close> beyond 9999.\<close>
  "toISOString ms =
     (let (y, m, d) = civil (ms div 86400000);
          r = ms mod 86400000
      in (if y \<le> 9999 then pad 4 y else CHR ''+'' # pad 6 y)
         @ ''-'' @ pad 2 m @ ''-'' @ pad 2 d @ ''T''
         @ pad 2 (r div 3600000) @ '':'' @ pad 2 (r div 60000 mod 60) @ '':''
         @ pad 2 (r div 1000 mod 60) @ ''.'' @ pad 3 (r mod 1000) @ ''Z'')"

section \<open>Data model\<close>

text \<open>
  The fields of a task, of the constructor's options and of a plain task record have the
  same names in the source; here they carry the prefixes \<open>t_\<close>, \<open>o_\<close> and \<open>d_\<close>. The
  manager's \<open>filter\<close> is \<open>filter_m\<close>.
\<close>

record task =
  t_id :: string
  t_text :: string
  t_completed :: bool
  t_createdAt :: string
  t_completedAt :: "string option"
  t_updatedAt :: string
  t_priority :: string
  t_category :: string
  t_tags :: "string list"
  t_dueDate :: "string option"
  t_description :: string

text \<open>
  The \<open>options\<close> argument of the constructor. \<open>None\<close> is a field that is
  \<open>undefined\<close> or \<open>null\<close>.
\<close>

record options =
  o_id :: "string option"
  o_completed :: "bool option"
  o_createdAt :: "string option"
  o_completedAt :: "string option"
  o_updatedAt :: "string option"
  o_priority :: "string option"
  o_category :: "string option"
  o_tags :: "string list option"
  o_dueDate :: "string option"
  o_description :: "string option"

text \<open>
  A plain task record, as \<open>toJSON\<close> writes it and \<open>fromJSON\<close> reads it. A record read
  from storage or from an import file may lack any field.
\<close>

record task_data =
  d_id :: "string option"
  d_text :: "string option"
  d_completed :: "bool option"
  d_createdAt :: "string option"
  d_completedAt :: "string option"
  d_updatedAt :: "string option"
  d_priority :: "string option"
  d_category :: "string option"
  d_tags :: "string list option"
  d_dueDate :: "string option"
  d_description :: "string option"

text \<open>What \<open>storageManager.saveTasks\<close> writes under its storage key.\<close>

record stored =
  s_tasks :: "task_data list"
  s_version :: string
  s_lastModified :: string
  s_timestamp :: nat

text \<open>
  The host environment: the wall clock (the result of the \<open>i\<close>-th reading, in
  milliseconds), \<open>Math.random\<close> (the base-36 rendering of the \<open>i\<close>-th draw), the storage
  medium, the two library functions the sort comparator calls
  (\<open>new Date(s).getTime()\<close>, \<open>None\<close> for \<open>NaN\<close>, and \<open>localeCompare\<close>), and the case
  mapping \<open>String.prototype.toLowerCase\<close>.
\<close>

record world =
  clock :: "nat \<Rightarrow> nat"
  reads :: nat
  random36 :: "nat \<Rightarrow> string"
  draws :: nat
  storage :: "stored option"
  writable :: bool
  getTime :: "string \<Rightarrow> int option"
  localeCompare :: "string \<Rightarrow> string \<Rightarrow> int"
  toLowerCase :: "string \<Rightarrow> string"

datatype error =
  EmptyText      \<comment> \<open>\<open>new Error\<close>: the task text must not be empty\<close>
| NotFound       \<comment> \<open>\<open>new Error\<close>: the task does not exist\<close>
| BadFormat      \<comment> \<open>\<open>new Error\<close>: the import data is not an array\<close>
| TypeError      \<comment> \<open>a method call on \<open>undefined\<close>\<close>

datatype event =
  TaskAdded task
| TaskRemoved task
| TaskUpdated task task     \<comment> \<open>\<open>detail: { task, oldTask }\<close>\<close>
| TasksChanged
| FilterChanged string
| SearchChanged string
| SortingChanged string string
| CompletedCleared nat
| TasksLoaded nat
| TasksReset
| TasksImported nat bool nat  \<comment> \<open>\<open>detail: { count, merge, total }\<close>\<close>

text \<open>
  The manager: the fields of \<open>TaskManager\<close>, the events it has dispatched so far
  (oldest first) and the environment it runs in.
\<close>

record manager =
  tasks :: "task list"
  nextId :: nat
  filter_m :: string
  searchQuery :: string
  sortBy :: string
  sortOrder :: string
  events :: "event list"
  env :: world

section \<open>Clock, random numbers, storage\<close>

definition Date_now :: "world \<Rightarrow> nat \<times> world" where
  "Date_now w = (clock w (reads w), w\<lparr>reads := Suc (reads w)\<rparr>)"

definition now_iso :: "world \<Rightarrow> string \<times> world" where
  \<comment> \<open>\<open>new Date().toISOString()\<close>\<close>
  "now_iso w = (let (ms, w') = Date_now w in (toISOString ms, w'))"

definition Math_random36 :: "world \<Rightarrow> string \<times> world" where
  \<comment> \<open>\<open>Math.random().toString(36)\<close>\<close>
  "Math_random36 w = (random36 w (draws w), w\<lparr>draws := Suc (draws w)\<rparr>)"

definition substr :: "string \<Rightarrow> nat \<Rightarrow> nat \<Rightarrow> string" where
  "substr s start len = take len (drop start s)"

definition storage_saveTasks :: "task_data list \<Rightarrow> world \<Rightarrow> bool \<times> world" where
  \<comment> \<open>\<open>StorageManager.saveTasks\<close>: a failing write is caught and reported as \<open>false\<close>.\<close>
  "storage_saveTasks ds w0 =
     (let (lm, w1) = now_iso w0;
          (ts, w2) = Date_now w1;
          data = \<lparr>s_tasks = ds, s_version = ''1.0.0'', s_lastModified = lm, s_timestamp = ts\<rparr>
      in if writable w2 then (True, w2\<lparr>storage := Some data\<rparr>) else (False, w2))"

definition storage_loadTasks :: "world \<Rightarrow> task_data list" where
  "storage_loadTasks w = (case storage w of None \<Rightarrow> [] | Some data \<Rightarrow> s_tasks data)"

section \<open>Task\<close>

definition or_gen :: "string option \<Rightarrow> (world \<Rightarrow> string \<times> world) \<Rightarrow> world \<Rightarrow> string \<times> world" where
  \<comment> \<open>\<open>x || f()\<close>: \<open>f\<close> runs only when \<open>x\<close> is falsy.\<close>
  "or_gen x f w = (case x of None \<Rightarrow> f w | Some s \<Rightarrow> if s = [] then f w else (s, w))"

definition or_str :: "string option \<Rightarrow> string \<Rightarrow> string" where
  \<comment> \<open>\<open>x || d\<close> for a string default\<close>
  "or_str x d = (case x of None \<Rightarrow> d | Some s \<Rightarrow> if s = [] then d else s)"

definition or_null :: "string option \<Rightarrow> string option" where
  \<comment> \<open>\<open>x || null\<close>\<close>
  "or_null x = (case x of None \<Rightarrow> None | Some s \<Rightarrow> if s = [] then None else Some s)"

definition or_false :: "bool option \<Rightarrow> bool" where
  \<comment> \<open>\<open>x || false\<close>\<close>
  "or_false x = (case x of None \<Rightarrow> False | Some b \<Rightarrow> b)"

definition or_nil :: "string list option \<Rightarrow> string list" where
  \<comment> \<open>\<open>x || []\<close>: an array is truthy even when empty\<close>
  "or_nil x = (case x of None \<Rightarrow> [] | Some l \<Rightarrow> l)"

definition generateId :: "world \<Rightarrow> string \<times> world" where
  "generateId w0 =
     (let (ms, w1) = Date_now w0;
          (r, w2) = Math_random36 w1
      in (''task-'' @ show_nat ms @ ''-'' @ substr r 2 9, w2))"

definition new_Task :: "string \<Rightarrow> options \<Rightarrow> world \<Rightarrow> task \<times> world" where
  \<comment> \<open>\<open>new Task(text, options)\<close>\<close>
  "new_Task text opts w0 =
     (let (i, w1) = or_gen (o_id opts) generateId w0;
          (c, w2) = or_gen (o_createdAt opts) now_iso w1;
          (u, w3) = or_gen (o_updatedAt opts) now_iso w2
      in (\<lparr>t_id = i,
           t_text = trim text,
           t_completed = or_false (o_completed opts),
           t_createdAt = c,
           t_completedAt = or_null (o_completedAt opts),
           t_updatedAt = u,
           t_priority = or_str (o_priority opts) ''normal'',
           t_category = or_str (o_category opts) ''default'',
           t_tags = or_nil (o_tags opts),
           t_dueDate = or_null (o_dueDate opts),
           t_description = or_str (o_description opts) []\<rparr>, w3))"

definition toggle :: "task \<Rightarrow> world \<Rightarrow> task \<times> world" where
  "toggle t w0 =
     (let c = \<not> t_completed t;
          (ca, w1) = (if c then (let (s, w) = now_iso w0 in (Some s, w)) else (None, w0));
          (u, w2) = now_iso w1
      in (t\<lparr>t_completed := c, t_completedAt := ca, t_updatedAt := u\<rparr>, w2))"

definition updateText :: "string \<Rightarrow> task \<Rightarrow> world \<Rightarrow> bool \<times> task \<times> world" where
  "updateText newText t w0 =
     (if trim newText \<noteq> [] then
        (let (u, w1) = now_iso w0
         in (True, t\<lparr>t_text := trim newText, t_updatedAt := u\<rparr>, w1))
      else (False, t, w0))"

definition setPriority :: "string \<Rightarrow> task \<Rightarrow> world \<Rightarrow> bool \<times> task \<times> world" where
  "setPriority priority t w0 =
     (if priority \<in> set [''low'', ''normal'', ''high''] then
        (let (u, w1) = now_iso w0
         in (True, t\<lparr>t_priority := priority, t_updatedAt := u\<rparr>, w1))
      else (False, t, w0))"

definition addTag :: "string \<Rightarrow> task \<Rightarrow> world \<Rightarrow> bool \<times> task \<times> world" where
  "addTag tag t w0 =
     (let tagStr = toLowerCase w0 (trim tag) in
      if tagStr \<noteq> [] \<and> tagStr \<notin> set (t_tags t) then
        (let (u, w1) = now_iso w0
         in (True, t\<lparr>t_tags := t_tags t @ [tagStr], t_updatedAt := u\<rparr>, w1))
      else (False, t, w0))"

definition removeTag :: "string \<Rightarrow> task \<Rightarrow> world \<Rightarrow> bool \<times> task \<times> world" where
  "removeTag tag t w0 =
     (let tagStr = toLowerCase w0 (trim tag) in
      if tagStr \<in> set (t_tags t) then
        (let (u, w1) = now_iso w0
         in (True, t\<lparr>t_tags := remove1 tagStr (t_tags t), t_updatedAt := u\<rparr>, w1))
      else (False, t, w0))"

text \<open>
  The argument of \<open>setDueDate\<close>: a \<open>Date\<close> object (its time value), a string, \<open>null\<close>,
  or anything else (\<open>undefined\<close>, a number, ...).
\<close>

datatype date_arg = DateObj nat | DateStr string | DateNull | DateOther

definition setDueDate :: "date_arg \<Rightarrow> task \<Rightarrow> world \<Rightarrow> bool \<times> task \<times> world" where
  "setDueDate date t w0 =
     (case date of
        DateObj ms \<Rightarrow>
          (let (u, w1) = now_iso w0
           in (True, t\<lparr>t_dueDate := Some (toISOString ms), t_updatedAt := u\<rparr>, w1))
      | DateStr s \<Rightarrow>
          (if s \<noteq> [] then
             (let (u, w1) = now_iso w0
              in (True, t\<lparr>t_dueDate := Some s, t_updatedAt := u\<rparr>, w1))
           else (False, t, w0))
      | DateNull \<Rightarrow>
          (let (u, w1) = now_iso w0
           in (True, t\<lparr>t_dueDate := None, t_updatedAt := u\<rparr>, w1))
      | DateOther \<Rightarrow> (False, t, w0))"

definition toJSON :: "task \<Rightarrow> task_data" where
  "toJSON t =
     \<lparr>d_id = Some (t_id t),
      d_text = Some (t_text t),
      d_completed = Some (t_completed t),
      d_createdAt = Some (t_createdAt t),
      d_completedAt = t_completedAt t,
      d_updatedAt = Some (t_updatedAt t),
      d_priority = Some (t_priority t),
      d_category = Some (t_category t),
      d_tags = Some (t_tags t),
      d_dueDate = t_dueDate t,
      d_description = Some (t_description t)\<rparr>"

definition fromJSON :: "task_data \<Rightarrow> world \<Rightarrow> (error + task) \<times> world" where
  \<comment> \<open>\<open>text.trim()\<close> in the constructor throws a \<open>TypeError\<close> when \<open>data.text\<close> is
      missing; the constructor has set \<open>this.id\<close> by then.\<close>
  "fromJSON data w0 =
     (case d_text data of
        None \<Rightarrow> (Inl TypeError, snd (or_gen (d_id data) generateId w0))
      | Some text \<Rightarrow>
          (let (t, w1) = new_Task text
                 \<lparr>o_id = d_id data,
                  o_completed = d_completed data,
                  o_createdAt = d_createdAt data,
                  o_completedAt = d_completedAt data,
                  o_updatedAt = d_updatedAt data,
                  o_priority = d_priority data,
                  o_category = d_category data,
                  o_tags = d_tags data,
                  o_dueDate = d_dueDate data,
                  o_description = d_description data\<rparr> w0
           in (Inr t, w1)))"

section \<open>TaskManager\<close>

primrec findIndex :: "('a \<Rightarrow> bool) \<Rightarrow> 'a list \<Rightarrow> nat option" where
  \<comment> \<open>\<open>Array.prototype.findIndex\<close>, \<open>None\<close> for \<open>-1\<close>; \<open>find\<close> returns the element there.\<close>
  "findIndex P [] = None"
| "findIndex P (x # xs) = (if P x then Some 0 else map_option Suc (findIndex P xs))"

definition dispatchEvent :: "event \<Rightarrow> manager \<Rightarrow> manager" where
  \<comment> \<open>The event joins the record of dispatched events. The listeners belong to the
      presentation layer and are not part of the model.\<close>
  "dispatchEvent e m = m\<lparr>events := events m @ [e]\<rparr>"

definition saveTasks :: "manager \<Rightarrow> manager" where
  \<comment> \<open>The boolean that the storage adapter returns is not looked at.\<close>
  "saveTasks m = m\<lparr>env := snd (storage_saveTasks (map toJSON (tasks m)) (env m))\<rparr>"

definition addTask :: "string \<Rightarrow> options \<Rightarrow> manager \<Rightarrow> (error + task) \<times> manager" where
  "addTask text opts m =
     (if text = [] \<or> trim text = [] then (Inl EmptyText, m)
      else
        (let (task, w) = new_Task text opts (env m);
             m1 = m\<lparr>tasks := task # tasks m, env := w\<rparr>;
             m2 = saveTasks m1;
             m3 = dispatchEvent (TaskAdded task) m2;
             m4 = dispatchEvent TasksChanged m3
         in (Inr task, m4)))"

definition removeTask :: "string \<Rightarrow> manager \<Rightarrow> (error + task) \<times> manager" where
  "removeTask taskId m =
     (case findIndex (\<lambda>task. t_id task = taskId) (tasks m) of
        None \<Rightarrow> (Inl NotFound, m)
      | Some index \<Rightarrow>
          (let task = tasks m ! index;
               m1 = m\<lparr>tasks := take index (tasks m) @ drop (Suc index) (tasks m)\<rparr>;
               m2 = saveTasks m1;
               m3 = dispatchEvent (TaskRemoved task) m2;
               m4 = dispatchEvent TasksChanged m3
           in (Inr task, m4)))"

text \<open>
  One entry of the \<open>updates\<close> object of \<open>updateTask\<close>, by its key: the eleven own
  properties of a task, and any other key.
\<close>

datatype update =
  K_text string
| K_priority string
| K_dueDate date_arg
| K_completed bool
| K_id string
| K_createdAt string
| K_completedAt "string option"
| K_updatedAt string
| K_category string
| K_tags "string list"
| K_description string
| K_other string

definition assign :: "(task \<Rightarrow> task) \<Rightarrow> task \<Rightarrow> world \<Rightarrow> task \<times> world" where
  \<comment> \<open>\<open>task[key] = updates[key]; task.updatedAt = new Date().toISOString()\<close>\<close>
  "assign f t w0 = (let (u, w1) = now_iso w0 in ((f t)\<lparr>t_updatedAt := u\<rparr>, w1))"

fun applyUpdate :: "update \<Rightarrow> task \<Rightarrow> world \<Rightarrow> task \<times> world" where
  \<comment> \<open>The body of \<open>Object.keys(updates).forEach\<close>.\<close>
  "applyUpdate (K_text v) t w =
     (if v \<noteq> [] then snd (updateText v t w) else assign (\<lambda>t. t\<lparr>t_text := v\<rparr>) t w)"
| "applyUpdate (K_priority v) t w = snd (setPriority v t w)"
| "applyUpdate (K_dueDate v) t w = snd (setDueDate v t w)"
| "applyUpdate (K_completed v) t w = (if v \<noteq> t_completed t then toggle t w else (t, w))"
| "applyUpdate (K_id v) t w = assign (\<lambda>t. t\<lparr>t_id := v\<rparr>) t w"
| "applyUpdate (K_createdAt v) t w = assign (\<lambda>t. t\<lparr>t_createdAt := v\<rparr>) t w"
| "applyUpdate (K_completedAt v) t w = assign (\<lambda>t. t\<lparr>t_completedAt := v\<rparr>) t w"
| "applyUpdate (K_updatedAt v) t w = assign (\<lambda>t. t\<lparr>t_updatedAt := v\<rparr>) t w"
| "applyUpdate (K_category v) t w = assign (\<lambda>t. t\<lparr>t_category := v\<rparr>) t w"
| "applyUpdate (K_tags v) t w = assign (\<lambda>t. t\<lparr>t_tags := v\<rparr>) t w"
| "applyUpdate (K_description v) t w = assign (\<lambda>t. t\<lparr>t_description := v\<rparr>) t w"
| "applyUpdate (K_other k) t w = (t, w)"

fun applyUpdates :: "update list \<Rightarrow> task \<Rightarrow> world \<Rightarrow> task \<times> world" where
  "applyUpdates [] t w = (t, w)"
| "applyUpdates (u # us) t w = (let (t', w') = applyUpdate u t w in applyUpdates us t' w')"

definition updateTask :: "string \<Rightarrow> update list \<Rightarrow> manager \<Rightarrow> (error + task) \<times> manager" where
  "updateTask taskId updates m =
     (case findIndex (\<lambda>t. t_id t = taskId) (tasks m) of
        None \<Rightarrow> (Inl NotFound, m)
      | Some index \<Rightarrow>
          (let oldTask = tasks m ! index;
               (task, w) = applyUpdates updates oldTask (env m);
               m1 = m\<lparr>tasks := (tasks m)[index := task], env := w\<rparr>;
               m2 = saveTasks m1;
               m3 = dispatchEvent (TaskUpdated task oldTask) m2;
               m4 = dispatchEvent TasksChanged m3
           in (Inr task, m4)))"

definition getTask :: "string \<Rightarrow> manager \<Rightarrow> error + task" where
  "getTask taskId m =
     (case findIndex (\<lambda>t. t_id t = taskId) (tasks m) of
        None \<Rightarrow> Inl NotFound
      | Some index \<Rightarrow> Inr (tasks m ! index))"

definition toggleTask :: "string \<Rightarrow> manager \<Rightarrow> (error + task) \<times> manager" where
  "toggleTask taskId m =
     (case getTask taskId m of
        Inl e \<Rightarrow> (Inl e, m)
      | Inr task \<Rightarrow> updateTask taskId [K_completed (\<not> t_completed task)] m)"

definition getAllTasks :: "manager \<Rightarrow> task list" where
  "getAllTasks m = tasks m"

definition statusFilter :: "string \<Rightarrow> task list \<Rightarrow> task list" where
  \<comment> \<open>The \<open>switch (this.filter)\<close> of \<open>getFilteredTasks\<close>.\<close>
  "statusFilter f ts =
     (if f = ''active'' then filter (\<lambda>task. \<not> t_completed task) ts
      else if f = ''completed'' then filter (\<lambda>task. t_completed task) ts
      else ts)"

definition searchFilter :: "world \<Rightarrow> string \<Rightarrow> task list \<Rightarrow> task list" where
  "searchFilter w q ts =
     (if q \<noteq> [] then
        (let query = toLowerCase w q in
         filter (\<lambda>task.
             includes_str (toLowerCase w (t_text task)) query \<or>
             includes_str (toLowerCase w (t_description task)) query \<or>
             list_ex (\<lambda>tag. includes_str tag query) (t_tags task)) ts)
      else ts)"

definition object_prototype_keys :: "string list" where
  \<comment> \<open>The property names every object literal inherits from \<open>Object.prototype\<close>.\<close>
  "object_prototype_keys =
     [''constructor'', ''hasOwnProperty'', ''isPrototypeOf'', ''propertyIsEnumerable'',
      ''toLocaleString'', ''toString'', ''valueOf'', ''__proto__'', ''__defineGetter__'',
      ''__defineSetter__'', ''__lookupGetter__'', ''__lookupSetter__'']"

definition priorityOrder :: "string \<Rightarrow> int option" where
  \<comment> \<open>\<open>priorityOrder[p] || 2\<close> as a number: an inherited property is a function or an
      object, which is truthy and is \<open>NaN\<close> in the subtraction (\<open>None\<close>).\<close>
  "priorityOrder p =
     (if p = ''high'' then Some 3 else if p = ''normal'' then Some 2
      else if p = ''low'' then Some 1
      else if p \<in> set object_prototype_keys then None else Some 2)"

definition minus_num :: "int option \<Rightarrow> int option \<Rightarrow> int" where
  \<comment> \<open>\<open>a - b\<close> as the sort reads it: a \<open>NaN\<close> result counts as 0.\<close>
  "minus_num a b = (case (a, b) of (Some x, Some y) \<Rightarrow> x - y | _ \<Rightarrow> 0)"

definition compareTasks :: "manager \<Rightarrow> task \<Rightarrow> task \<Rightarrow> int" where
  \<comment> \<open>The comparator passed to \<open>filtered.sort\<close>.\<close>
  "compareTasks m a b =
     (if sortBy m = ''priority'' then
        (let aVal = priorityOrder (t_priority a); bVal = priorityOrder (t_priority b)
         in if sortOrder m = ''asc'' then minus_num aVal bVal else minus_num bVal aVal)
      else if sortBy m = ''text'' then
        (let aVal = toLowerCase (env m) (t_text a); bVal = toLowerCase (env m) (t_text b)
         in if sortOrder m = ''asc'' then localeCompare (env m) aVal bVal
            else localeCompare (env m) bVal aVal)
      else if sortBy m = ''updatedAt'' then
        (let aVal = getTime (env m) (t_updatedAt a); bVal = getTime (env m) (t_updatedAt b)
         in if sortOrder m = ''asc'' then minus_num aVal bVal else minus_num bVal aVal)
      else
        (let aVal = getTime (env m) (t_createdAt a); bVal = getTime (env m) (t_createdAt b)
         in if sortOrder m = ''asc'' then minus_num aVal bVal else minus_num bVal aVal))"

primrec insertBy :: "('a \<Rightarrow> 'a \<Rightarrow> int) \<Rightarrow> 'a \<Rightarrow> 'a list \<Rightarrow> 'a list" where
  "insertBy cmp x [] = [x]"
| "insertBy cmp x (y # ys) = (if cmp x y \<le> 0 then x # y # ys else y # insertBy cmp x ys)"

definition array_sort :: "('a \<Rightarrow> 'a \<Rightarrow> int) \<Rightarrow> 'a list \<Rightarrow> 'a list" where
  \<comment> \<open>\<open>Array.prototype.sort\<close> with a comparator, as a stable insertion sort. For a
      comparator that is not a consistent order the engine may arrange the elements
      differently; its result is a rearrangement of the array all the same.\<close>
  "array_sort cmp xs = foldr (insertBy cmp) xs []"

definition getFilteredTasks :: "manager \<Rightarrow> task list \<times> manager" where
  \<comment> \<open>Works on a copy of \<open>this.tasks\<close>; the manager is returned as it was.\<close>
  "getFilteredTasks m =
     (let filtered = tasks m;
          filtered = statusFilter (filter_m m) filtered;
          filtered = searchFilter (env m) (searchQuery m) filtered;
          filtered = array_sort (compareTasks m) filtered
      in (filtered, m))"

definition setFilter :: "string \<Rightarrow> manager \<Rightarrow> bool \<times> manager" where
  "setFilter f m =
     (if f \<in> set [''all'', ''active'', ''completed''] then
        (True, dispatchEvent (FilterChanged f) (m\<lparr>filter_m := f\<rparr>))
      else (False, m))"

definition setSearchQuery :: "string \<Rightarrow> manager \<Rightarrow> manager" where
  "setSearchQuery query m =
     (let m1 = m\<lparr>searchQuery := trim query\<rparr>
      in dispatchEvent (SearchChanged (searchQuery m1)) m1)"

definition setSorting :: "string \<Rightarrow> string option \<Rightarrow> manager \<Rightarrow> manager" where
  \<comment> \<open>\<open>setSorting(sortBy, sortOrder = 'desc')\<close>: \<open>None\<close> is an omitted second argument.\<close>
  "setSorting by ord m =
     (let order = (case ord of None \<Rightarrow> ''desc'' | Some s \<Rightarrow> s);
          m1 = (if by \<in> set [''createdAt'', ''updatedAt'', ''priority'', ''text'']
                then m\<lparr>sortBy := by\<rparr> else m);
          m2 = (if order \<in> set [''asc'', ''desc''] then m1\<lparr>sortOrder := order\<rparr> else m1)
      in dispatchEvent (SortingChanged (sortBy m2) (sortOrder m2)) m2)"

fun bulkComplete_loop :: "string list \<Rightarrow> task list \<Rightarrow> manager \<Rightarrow> task list \<times> manager" where
  \<comment> \<open>\<open>taskIds.forEach\<close> with its \<open>try\<close>/\<open>catch\<close>: a failing id is skipped.\<close>
  "bulkComplete_loop [] updatedTasks m = (updatedTasks, m)"
| "bulkComplete_loop (taskId # taskIds) updatedTasks m =
     (case getTask taskId m of
        Inl e \<Rightarrow> bulkComplete_loop taskIds updatedTasks m
      | Inr task \<Rightarrow>
          (if \<not> t_completed task then
             (case toggleTask taskId m of
                (Inl e, m') \<Rightarrow> bulkComplete_loop taskIds updatedTasks m'
              | (Inr task', m') \<Rightarrow> bulkComplete_loop taskIds (updatedTasks @ [task']) m')
           else bulkComplete_loop taskIds updatedTasks m))"

definition bulkComplete :: "string list \<Rightarrow> manager \<Rightarrow> task list \<times> manager" where
  "bulkComplete taskIds m = bulkComplete_loop taskIds [] m"

fun bulkDelete_loop :: "string list \<Rightarrow> task list \<Rightarrow> manager \<Rightarrow> task list \<times> manager" where
  "bulkDelete_loop [] deletedTasks m = (deletedTasks, m)"
| "bulkDelete_loop (taskId # taskIds) deletedTasks m =
     (case removeTask taskId m of
        (Inl e, m') \<Rightarrow> bulkDelete_loop taskIds deletedTasks m'
      | (Inr task, m') \<Rightarrow> bulkDelete_loop taskIds (deletedTasks @ [task]) m')"

definition bulkDelete :: "string list \<Rightarrow> manager \<Rightarrow> task list \<times> manager" where
  "bulkDelete taskIds m = bulkDelete_loop taskIds [] m"

definition clearCompleted :: "manager \<Rightarrow> task list \<times> manager" where
  "clearCompleted m =
     (let completedTasks = filter (\<lambda>task. t_completed task) (tasks m);
          m1 = m\<lparr>tasks := filter (\<lambda>task. \<not> t_completed task) (tasks m)\<rparr>;
          m2 = saveTasks m1;
          m3 = dispatchEvent (CompletedCleared (length completedTasks)) m2;
          m4 = dispatchEvent TasksChanged m3
      in (completedTasks, m4))"

fun map_fromJSON :: "task_data list \<Rightarrow> world \<Rightarrow> (error + task list) \<times> world" where
  \<comment> \<open>\<open>taskData.map(data => Task.fromJSON(data))\<close>: the first exception ends the map.\<close>
  "map_fromJSON [] w = (Inr [], w)"
| "map_fromJSON (d # ds) w =
     (case fromJSON d w of
        (Inl e, w') \<Rightarrow> (Inl e, w')
      | (Inr t, w') \<Rightarrow>
          (case map_fromJSON ds w' of
             (Inl e, w'') \<Rightarrow> (Inl e, w'')
           | (Inr ts, w'') \<Rightarrow> (Inr (t # ts), w'')))"

definition loadTasks :: "manager \<Rightarrow> manager" where
  "loadTasks m =
     (case map_fromJSON (storage_loadTasks (env m)) (env m) of
        (Inr ts, w) \<Rightarrow>
          dispatchEvent TasksChanged
            (dispatchEvent (TasksLoaded (length ts)) (m\<lparr>tasks := ts, env := w\<rparr>))
      | (Inl e, w) \<Rightarrow> m\<lparr>tasks := [], env := w\<rparr>)"

definition new_TaskManager :: "world \<Rightarrow> manager" where
  \<comment> \<open>\<open>new TaskManager()\<close>\<close>
  "new_TaskManager w =
     loadTasks \<lparr>tasks = [], nextId = 1, filter_m = ''all'', searchQuery = [],
                sortBy = ''createdAt'', sortOrder = ''desc'', events = [], env = w\<rparr>"

definition reset :: "manager \<Rightarrow> manager" where
  "reset m =
     (let m1 = m\<lparr>tasks := [], filter_m := ''all'', searchQuery := [],
                  sortBy := ''createdAt'', sortOrder := ''desc''\<rparr>;
          m2 = saveTasks m1;
          m3 = dispatchEvent TasksReset m2
      in dispatchEvent TasksChanged m3)"

definition importTasks :: "task_data list option \<Rightarrow> bool \<Rightarrow> manager \<Rightarrow> (error + bool) \<times> manager" where
  \<comment> \<open>\<open>None\<close> is a \<open>tasksData\<close> that is not an array.\<close>
  "importTasks tasksData merge m =
     (case tasksData of
        None \<Rightarrow> (Inl BadFormat, m)
      | Some ds \<Rightarrow>
          (case map_fromJSON ds (env m) of
             (Inl e, w) \<Rightarrow> (Inl e, m\<lparr>env := w\<rparr>)
           | (Inr importedTasks, w) \<Rightarrow>
               (let ts = (if merge then
                            (let existingIds = set (map t_id (tasks m));
                                 newTasks = filter (\<lambda>t. t_id t \<notin> existingIds) importedTasks
                             in tasks m @ newTasks)
                          else importedTasks);
                    m1 = m\<lparr>tasks := ts, env := w\<rparr>;
                    m2 = saveTasks m1;
                    m3 = dispatchEvent (TasksImported (length importedTasks) merge (length ts)) m2;
                    m4 = dispatchEvent TasksChanged m3
                in (Inr True, m4))))"

definition settings :: "manager \<Rightarrow> string \<times> string \<times> string \<times> string" where
  \<comment> \<open>The view settings of the manager: \<open>filter\<close>, \<open>searchQuery\<close>, \<open>sortBy\<close>, \<open>sortOrder\<close>.\<close>
  "settings m = (filter_m m, searchQuery m, sortBy m, sortOrder m)"

definition same_id :: "task_data \<Rightarrow> task \<Rightarrow> bool" where
  \<comment> \<open>The task carries the record's id, when the record has a non-empty one.\<close>
  "same_id d t = (case d_id d of None \<Rightarrow> True | Some s \<Rightarrow> s = [] \<or> t_id t = s)"

definition storable :: "task \<Rightarrow> bool" where
  \<comment> \<open>No field of the task is a value that \<open>x || d\<close> in the constructor replaces, and the
      text is trimmed.\<close>
  "storable t =
     (trim (t_text t) = t_text t \<and> t_id t \<noteq> [] \<and> t_createdAt t \<noteq> [] \<and>
      t_updatedAt t \<noteq> [] \<and> t_priority t \<noteq> [] \<and> t_category t \<noteq> [] \<and>
      t_completedAt t \<noteq> Some [] \<and> t_dueDate t \<noteq> Some [])"

section \<open>Sequences of public operations\<close>

text \<open>
  The calls a client can make on a task it holds: the mutating methods of \<open>Task\<close>.
\<close>

datatype task_call =
  Toggle
| UpdateText string
| SetPriority string
| AddTag string
| RemoveTag string
| SetDueDate date_arg

fun call :: "task_call \<Rightarrow> task \<Rightarrow> world \<Rightarrow> task \<times> world" where
  "call Toggle t w = toggle t w"
| "call (UpdateText newText) t w = snd (updateText newText t w)"
| "call (SetPriority priority) t w = snd (setPriority priority t w)"
| "call (AddTag tag) t w = snd (addTag tag t w)"
| "call (RemoveTag tag) t w = snd (removeTag tag t w)"
| "call (SetDueDate date) t w = snd (setDueDate date t w)"

text \<open>
  The public operations on a manager. \<open>CallTask taskId mth\<close> is a method called on the
  task that \<open>getTask(taskId)\<close> returns, which is the object the collection holds.
\<close>

datatype command =
  AddTask string options
| RemoveTask string
| UpdateTask string "update list"
| ToggleTask string
| CallTask string task_call
| BulkComplete "string list"
| BulkDelete "string list"
| ClearCompleted
| Reset
| ImportTasks "task_data list option" bool
| SetFilter string
| SetSearchQuery string
| SetSorting string "string option"

fun exec :: "command \<Rightarrow> manager \<Rightarrow> manager" where
  \<comment> \<open>The manager after one operation; what the operation returns or throws is dropped.\<close>
  "exec (AddTask text opts) m = snd (addTask text opts m)"
| "exec (RemoveTask taskId) m = snd (removeTask taskId m)"
| "exec (UpdateTask taskId updates) m = snd (updateTask taskId updates m)"
| "exec (ToggleTask taskId) m = snd (toggleTask taskId m)"
| "exec (CallTask taskId mth) m =
     (case findIndex (\<lambda>t. t_id t = taskId) (tasks m) of
        None \<Rightarrow> m
      | Some index \<Rightarrow>
          (let (task, w) = call mth (tasks m ! index) (env m)
           in m\<lparr>tasks := (tasks m)[index := task], env := w\<rparr>))"
| "exec (BulkComplete taskIds) m = snd (bulkComplete taskIds m)"
| "exec (BulkDelete taskIds) m = snd (bulkDelete taskIds m)"
| "exec ClearCompleted m = snd (clearCompleted m)"
| "exec Reset m = reset m"
| "exec (ImportTasks tasksData merge) m = snd (importTasks tasksData merge m)"
| "exec (SetFilter f) m = snd (setFilter f m)"
| "exec (SetSearchQuery query) m = setSearchQuery query m"
| "exec (SetSorting sby sord) m = setSorting sby sord m"

fun run :: "command list \<Rightarrow> manager \<Rightarrow> manager" where
  "run [] m = m"
| "run (c # cs) m = run cs (exec c m)"

definition has_text :: "task \<Rightarrow> bool" where
  "has_text t = (t_text t \<noteq> [])"

fun text_safe :: "command \<Rightarrow> bool" where
  \<comment> \<open>No \<open>updateTask\<close> carries a falsy \<open>text\<close> value (of the strings, the empty one), and
      every record of an import has a text that is not empty after trimming.\<close>
  "text_safe (UpdateTask taskId updates) =
     list_all (\<lambda>u. case u of K_text v \<Rightarrow> v \<noteq> [] | _ \<Rightarrow> True) updates"
| "text_safe (ImportTasks (Some ds) merge) =
     list_all (\<lambda>d. case d_text d of None \<Rightarrow> True | Some s \<Rightarrow> trim s \<noteq> []) ds"
| "text_safe c = True"

definition completion_ok :: "task \<Rightarrow> bool" where
  \<comment> \<open>\<open>completedAt\<close> is non-null if and only if \<open>completed\<close> is true.\<close>
  "completion_ok t = ((t_completedAt t \<noteq> None) = t_completed t)"

definition options_ok :: "bool option \<Rightarrow> string option \<Rightarrow> bool" where
  \<comment> \<open>\<open>completed\<close> and \<open>completedAt\<close> of an \<open>options\<close> object or of a plain record are both
      truthy or both falsy.\<close>
  "options_ok c ca = ((or_null ca \<noteq> None) = or_false c)"

fun completion_safe :: "command \<Rightarrow> bool" where
  \<comment> \<open>Overrides and imported records agree on \<open>completed\<close> and \<open>completedAt\<close>, and no
      \<open>updateTask\<close> assigns \<open>completedAt\<close>.\<close>
  "completion_safe (AddTask text opts) = options_ok (o_completed opts) (o_completedAt opts)"
| "completion_safe (UpdateTask taskId updates) =
     list_all (\<lambda>u. case u of K_completedAt v \<Rightarrow> False | _ \<Rightarrow> True) updates"
| "completion_safe (ImportTasks (Some ds) merge) =
     list_all (\<lambda>d. options_ok (d_completed d) (d_completedAt d)) ds"
| "completion_safe c = True"

section \<open>Sample states\<close>

definition sample_world :: world where
  "sample_world =
     \<lparr>clock = (\<lambda>i. 1000 * i), reads = 0, random36 = (\<lambda>i. ''0.4fzyo82mvyr''), draws = 0,
      storage = None, writable = True, getTime = (\<lambda>s. None), localeCompare = (\<lambda>a b. 0),
      toLowerCase = ascii_lower\<rparr>"

definition default_options :: options where
  \<comment> \<open>The default \<open>options = {}\<close>.\<close>
  "default_options =
     \<lparr>o_id = None, o_completed = None, o_createdAt = None, o_completedAt = None,
      o_updatedAt = None, o_priority = None, o_category = None, o_tags = None,
      o_dueDate = None, o_description = None\<rparr>"

definition sample_task :: "string \<Rightarrow> string \<Rightarrow> bool \<Rightarrow> string option \<Rightarrow> task" where
  "sample_task i txt c ca =
     \<lparr>t_id = i, t_text = txt, t_completed = c, t_createdAt = ''2024-03-01T00:00:00.000Z'',
      t_completedAt = ca, t_updatedAt = ''2024-03-01T00:00:00.000Z'',
      t_priority = ''normal'', t_category = ''default'', t_tags = [], t_dueDate = None,
      t_description = []\<rparr>"

definition sample_manager :: "task list \<Rightarrow> manager" where
  "sample_manager ts =
     \<lparr>tasks = ts, nextId = 1, filter_m = ''all'', searchQuery = [], sortBy = ''createdAt'',
      sortOrder = ''desc'', events = [], env = sample_world\<rparr>"

definition two_tasks :: "task list" where
  "two_tasks = [sample_task ''a'' ''Buy milk'' False None,
                sample_task ''b'' ''Call dentist'' True (Some ''2024-03-02T00:00:00.000Z'')]"

definition sample_data :: "string \<Rightarrow> string \<Rightarrow> task_data" where
  "sample_data i txt =
     \<lparr>d_id = Some i, d_text = Some txt, d_completed = Some False,
      d_createdAt = Some ''2024-03-05T00:00:00.000Z'', d_completedAt = None,
      d_updatedAt = Some ''2024-03-05T00:00:00.000Z'', d_priority = Some ''high'',
      d_category = Some ''default'', d_tags = Some [], d_dueDate = None,
      d_description = Some []\<rparr>"

definition sample_commands :: "command list" where
  "sample_commands =
     [AddTask '' Pay rent '' (default_options\<lparr>o_id := Some ''c''\<rparr>),
      UpdateTask ''a'' [K_text ''Buy oat milk'', K_priority ''high''],
      CallTask ''b'' (UpdateText ''   ''),
      ToggleTask ''c'']"

section \<open>Basic facts\<close>

lemma saveTasks_fields [simp]:
  "tasks (saveTasks m) = tasks m"
  "nextId (saveTasks m) = nextId m"
  "filter_m (saveTasks m) = filter_m m"
  "searchQuery (saveTasks m) = searchQuery m"
  "sortBy (saveTasks m) = sortBy m"
  "sortOrder (saveTasks m) = sortOrder m"
  "events (saveTasks m) = events m"
  by (simp_all add: saveTasks_def)

lemma dispatchEvent_fields [simp]:
  "tasks (dispatchEvent e m) = tasks m"
  "nextId (dispatchEvent e m) = nextId m"
  "filter_m (dispatchEvent e m) = filter_m m"
  "searchQuery (dispatchEvent e m) = searchQuery m"
  "sortBy (dispatchEvent e m) = sortBy m"
  "sortOrder (dispatchEvent e m) = sortOrder m"
  "events (dispatchEvent e m) = events m @ [e]"
  "env (dispatchEvent e m) = env m"
  by (simp_all add: dispatchEvent_def)

lemma settings_simps [simp]:
  "settings (saveTasks m) = settings m"
  "settings (dispatchEvent e m) = settings m"
  "settings (m\<lparr>tasks := ts\<rparr>) = settings m"
  "settings (m\<lparr>env := w\<rparr>) = settings m"
  "settings (m\<lparr>events := es\<rparr>) = settings m"
  by (simp_all add: settings_def)

lemma findIndex_None: "findIndex P xs = None \<longleftrightarrow> (\<forall>x \<in> set xs. \<not> P x)"
  by (induction xs) auto

lemma findIndex_Some:
  "findIndex P xs = Some i \<Longrightarrow> i < length xs \<and> P (xs ! i) \<and> (\<forall>j < i. \<not> P (xs ! j))"
proof (induction xs arbitrary: i)
  case Nil
  then show ?case by simp
next
  case (Cons x xs)
  show ?case
  proof (cases "P x")
    case True
    with Cons.prems show ?thesis by simp
  next
    case False
    with Cons.prems obtain k where k: "findIndex P xs = Some k" "i = Suc k" by auto
    from Cons.IH [OF k(1)] False k(2) show ?thesis
      by (auto simp: less_Suc_eq_0_disj)
  qed
qed

section \<open>The view settings are a frame of the collection's mutators\<close>

lemma addTask_settings: "settings (snd (addTask text opts m)) = settings m"
  by (simp add: addTask_def Let_def split: prod.splits)

lemma removeTask_settings: "settings (snd (removeTask taskId m)) = settings m"
  by (simp add: removeTask_def Let_def split: option.splits)

lemma updateTask_settings: "settings (snd (updateTask taskId updates m)) = settings m"
  by (simp add: updateTask_def Let_def split: option.splits prod.splits)

lemma toggleTask_settings: "settings (snd (toggleTask taskId m)) = settings m"
  by (simp add: toggleTask_def updateTask_settings split: sum.splits)

lemma bulkComplete_loop_settings:
  "settings (snd (bulkComplete_loop taskIds acc m)) = settings m"
proof (induction taskIds arbitrary: acc m)
  case Nil
  show ?case by simp
next
  case (Cons taskId taskIds)
  show ?case
  proof (cases "getTask taskId m")
    case (Inl e)
    then show ?thesis by (simp add: Cons.IH)
  next
    case (Inr task)
    obtain r m' where tg: "toggleTask taskId m = (r, m')" by (cases "toggleTask taskId m")
    have "settings m' = settings m" using toggleTask_settings [of taskId m] tg by simp
    then show ?thesis using Inr tg by (cases r) (simp_all add: Cons.IH)
  qed
qed

lemma bulkDelete_loop_settings:
  "settings (snd (bulkDelete_loop taskIds acc m)) = settings m"
proof (induction taskIds arbitrary: acc m)
  case Nil
  show ?case by simp
next
  case (Cons taskId taskIds)
  obtain r m' where rm: "removeTask taskId m = (r, m')" by (cases "removeTask taskId m")
  have "settings m' = settings m" using removeTask_settings [of taskId m] rm by simp
  then show ?case using rm by (cases r) (simp_all add: Cons.IH)
qed

lemma clearCompleted_settings: "settings (snd (clearCompleted m)) = settings m"
  by (simp add: clearCompleted_def Let_def)

lemma importTasks_settings: "settings (snd (importTasks tasksData merge m)) = settings m"
  by (simp add: importTasks_def Let_def split: option.splits prod.splits sum.splits)

text \<open>
  Claim C10. Every mutator of the collection other than \<open>reset\<close> (\<open>addTask\<close>,
  \<open>removeTask\<close>, \<open>updateTask\<close>, \<open>toggleTask\<close>, \<open>bulkComplete\<close>, \<open>bulkDelete\<close>,
  \<open>clearCompleted\<close>, \<open>importTasks\<close>) leaves \<open>filter\<close>, \<open>searchQuery\<close>, \<open>sortBy\<close> and
  \<open>sortOrder\<close> as they were, whether it succeeds or throws.
\<close>

theorem mutators_keep_settings:
  "settings (snd (addTask text opts m)) = settings m \<and>
   settings (snd (removeTask taskId m)) = settings m \<and>
   settings (snd (updateTask taskId updates m)) = settings m \<and>
   settings (snd (toggleTask taskId m)) = settings m \<and>
   settings (snd (bulkComplete taskIds m)) = settings m \<and>
   settings (snd (bulkDelete taskIds m)) = settings m \<and>
   settings (snd (clearCompleted m)) = settings m \<and>
   settings (snd (importTasks tasksData merge m)) = settings m"
  by (simp add: addTask_settings removeTask_settings updateTask_settings toggleTask_settings
      bulkComplete_def bulkComplete_loop_settings bulkDelete_def bulkDelete_loop_settings
      clearCompleted_settings importTasks_settings)

section \<open>Removing a task that is not there\<close>

text \<open>
  Claim C6. For an id that no task of the collection carries, \<open>removeTask\<close> throws its
  not-found error, and the manager (the collection with its membership and order, and
  everything else) is what it was: nothing is saved and no event is dispatched.
\<close>

theorem removeTask_missing:
  "taskId \<notin> t_id ` set (tasks m) \<Longrightarrow> removeTask taskId m = (Inl NotFound, m)"
proof -
  assume "taskId \<notin> t_id ` set (tasks m)"
  then have "findIndex (\<lambda>task. t_id task = taskId) (tasks m) = None"
    by (auto simp: findIndex_None)
  then show ?thesis by (simp add: removeTask_def)
qed

theorem removeTask_missing_witness:
  "''b'' \<notin> t_id ` set (tasks (sample_manager [sample_task ''a'' ''Buy milk'' False None])) \<and>
   removeTask ''b'' (sample_manager [sample_task ''a'' ''Buy milk'' False None]) =
     (Inl NotFound, sample_manager [sample_task ''a'' ''Buy milk'' False None]) \<and>
   tasks (sample_manager [sample_task ''a'' ''Buy milk'' False None]) \<noteq> []"
proof -
  have h: "''b'' \<notin> t_id ` set (tasks (sample_manager [sample_task ''a'' ''Buy milk'' False None]))"
    by (simp add: sample_manager_def sample_task_def)
  show ?thesis
    using h removeTask_missing [OF h] by (simp add: sample_manager_def)
qed

section \<open>The filtered view\<close>


lemma mset_insertBy: "mset (insertBy cmp x xs) = add_mset x (mset xs)"
  by (induction xs) simp_all

lemma mset_array_sort: "mset (array_sort cmp xs) = mset xs"
  by (induction xs) (simp_all add: array_sort_def mset_insertBy)

lemma set_array_sort: "set (array_sort cmp xs) = set xs"
  using mset_array_sort [of cmp xs] by (metis set_mset_mset)

lemma set_searchFilter: "set (searchFilter w q ts) \<subseteq> set ts"
  by (auto simp: searchFilter_def Let_def)

lemma getFilteredTasks_set:
  "set (fst (getFilteredTasks m)) \<subseteq> set (statusFilter (filter_m m) (tasks m))"
  using set_searchFilter by (simp add: getFilteredTasks_def Let_def set_array_sort)

text \<open>
  Claim C7. With \<open>filter = active\<close> the filtered view holds no completed task, with
  \<open>filter = completed\<close> no task that is not completed; with \<open>filter = all\<close> the status
  step drops nothing, so the view is a rearrangement of the tasks that pass the search
  step. \<open>getFilteredTasks\<close> returns the manager as it was.
\<close>

theorem getFilteredTasks_status:
  "(filter_m m = ''active'' \<longrightarrow> list_all (\<lambda>t. \<not> t_completed t) (fst (getFilteredTasks m))) \<and>
   (filter_m m = ''completed'' \<longrightarrow> list_all (\<lambda>t. t_completed t) (fst (getFilteredTasks m))) \<and>
   (filter_m m = ''all'' \<longrightarrow>
      statusFilter (filter_m m) (tasks m) = tasks m \<and>
      mset (fst (getFilteredTasks m)) = mset (searchFilter (env m) (searchQuery m) (tasks m))) \<and>
   snd (getFilteredTasks m) = m"
proof (intro conjI impI)
  assume "filter_m m = ''active''"
  then have "set (fst (getFilteredTasks m)) \<subseteq> {t. \<not> t_completed t}"
    using getFilteredTasks_set [of m] by (auto simp: statusFilter_def)
  then show "list_all (\<lambda>t. \<not> t_completed t) (fst (getFilteredTasks m))"
    by (auto simp: list_all_iff)
next
  assume "filter_m m = ''completed''"
  then have "set (fst (getFilteredTasks m)) \<subseteq> {t. t_completed t}"
    using getFilteredTasks_set [of m] by (auto simp: statusFilter_def)
  then show "list_all (\<lambda>t. t_completed t) (fst (getFilteredTasks m))"
    by (auto simp: list_all_iff)
next
  assume a: "filter_m m = ''all''"
  then show "statusFilter (filter_m m) (tasks m) = tasks m"
    by (simp add: statusFilter_def)
  from a show "mset (fst (getFilteredTasks m)) = mset (searchFilter (env m) (searchQuery m) (tasks m))"
    by (simp add: getFilteredTasks_def Let_def mset_array_sort statusFilter_def)
next
  show "snd (getFilteredTasks m) = m"
    by (simp add: getFilteredTasks_def Let_def)
qed

theorem getFilteredTasks_status_witness:
  "filter_m ((sample_manager two_tasks)\<lparr>filter_m := ''active''\<rparr>) = ''active'' \<and>
   list_all (\<lambda>t. \<not> t_completed t)
     (fst (getFilteredTasks ((sample_manager two_tasks)\<lparr>filter_m := ''active''\<rparr>))) \<and>
   fst (getFilteredTasks ((sample_manager two_tasks)\<lparr>filter_m := ''active''\<rparr>)) =
     [sample_task ''a'' ''Buy milk'' False None] \<and>
   filter_m ((sample_manager two_tasks)\<lparr>filter_m := ''completed''\<rparr>) = ''completed'' \<and>
   list_all (\<lambda>t. t_completed t)
     (fst (getFilteredTasks ((sample_manager two_tasks)\<lparr>filter_m := ''completed''\<rparr>))) \<and>
   fst (getFilteredTasks ((sample_manager two_tasks)\<lparr>filter_m := ''completed''\<rparr>)) =
     [sample_task ''b'' ''Call dentist'' True (Some ''2024-03-02T00:00:00.000Z'')] \<and>
   filter_m (sample_manager two_tasks) = ''all'' \<and>
   mset (fst (getFilteredTasks (sample_manager two_tasks))) = mset two_tasks"
proof -
  have a: "filter_m ((sample_manager two_tasks)\<lparr>filter_m := ''active''\<rparr>) = ''active''"
    and c: "filter_m ((sample_manager two_tasks)\<lparr>filter_m := ''completed''\<rparr>) = ''completed''"
    and l: "filter_m (sample_manager two_tasks) = ''all''"
    by (simp_all add: sample_manager_def)
  have sf: "searchFilter (env (sample_manager two_tasks)) (searchQuery (sample_manager two_tasks))
      (tasks (sample_manager two_tasks)) = two_tasks"
    by (simp add: searchFilter_def sample_manager_def)
  have ea: "fst (getFilteredTasks ((sample_manager two_tasks)\<lparr>filter_m := ''active''\<rparr>)) =
      [sample_task ''a'' ''Buy milk'' False None]"
    by (simp add: getFilteredTasks_def Let_def statusFilter_def searchFilter_def array_sort_def
        sample_manager_def two_tasks_def sample_task_def)
  have ec: "fst (getFilteredTasks ((sample_manager two_tasks)\<lparr>filter_m := ''completed''\<rparr>)) =
      [sample_task ''b'' ''Call dentist'' True (Some ''2024-03-02T00:00:00.000Z'')]"
    by (simp add: getFilteredTasks_def Let_def statusFilter_def searchFilter_def array_sort_def
        sample_manager_def two_tasks_def sample_task_def)
  from getFilteredTasks_status [of "(sample_manager two_tasks)\<lparr>filter_m := ''active''\<rparr>"] a
  have 1: "list_all (\<lambda>t. \<not> t_completed t)
     (fst (getFilteredTasks ((sample_manager two_tasks)\<lparr>filter_m := ''active''\<rparr>)))" by blast
  from getFilteredTasks_status [of "(sample_manager two_tasks)\<lparr>filter_m := ''completed''\<rparr>"] c
  have 2: "list_all (\<lambda>t. t_completed t)
     (fst (getFilteredTasks ((sample_manager two_tasks)\<lparr>filter_m := ''completed''\<rparr>)))" by blast
  from getFilteredTasks_status [of "sample_manager two_tasks"] l sf
  have 3: "mset (fst (getFilteredTasks (sample_manager two_tasks))) = mset two_tasks" by simp
  from a c l 1 2 3 ea ec show ?thesis by blast
qed

section \<open>Adding a task\<close>

lemma new_Task_fields:
  "t_text (fst (new_Task text opts w)) = trim text"
  "t_completed (fst (new_Task text opts w)) = or_false (o_completed opts)"
  "t_completedAt (fst (new_Task text opts w)) = or_null (o_completedAt opts)"
  "t_priority (fst (new_Task text opts w)) = or_str (o_priority opts) ''normal''"
  "t_category (fst (new_Task text opts w)) = or_str (o_category opts) ''default''"
  "t_tags (fst (new_Task text opts w)) = or_nil (o_tags opts)"
  "t_dueDate (fst (new_Task text opts w)) = or_null (o_dueDate opts)"
  "t_description (fst (new_Task text opts w)) = or_str (o_description opts) []"
  "t_id (fst (new_Task text opts w)) = fst (or_gen (o_id opts) generateId w)"
  by (simp_all add: new_Task_def Let_def split: prod.splits)

lemma trim_Nil [simp]: "trim [] = []"
  by (simp add: trim_def)

text \<open>
  Claim C1, as the code has it. When \<open>text\<close> is empty after trimming, \<open>addTask\<close> throws
  its empty-text error and the manager is what it was. Otherwise it returns a task whose
  text is the trimmed input and whose \<open>completed\<close> is \<open>options.completed\<close> when that is
  \<open>true\<close> and \<open>false\<close> otherwise (so \<open>false\<close> under the default options); the task is put
  at the front of the collection, it is the first of \<open>getAllTasks()\<close>, and the collection
  has grown by exactly one.
\<close>

theorem addTask_spec:
  "(trim text = [] \<longrightarrow> addTask text opts m = (Inl EmptyText, m)) \<and>
   (trim text \<noteq> [] \<longrightarrow>
      (\<exists>task. fst (addTask text opts m) = Inr task \<and>
         t_text task = trim text \<and>
         t_completed task = (o_completed opts = Some True) \<and>
         tasks (snd (addTask text opts m)) = task # tasks m \<and>
         getAllTasks (snd (addTask text opts m)) = task # tasks m \<and>
         length (tasks (snd (addTask text opts m))) = Suc (length (tasks m))))"
proof (intro conjI impI)
  assume "trim text = []"
  then show "addTask text opts m = (Inl EmptyText, m)"
    by (simp add: addTask_def)
next
  assume ne: "trim text \<noteq> []"
  then have t: "text \<noteq> []" by auto
  obtain task w where nt: "new_Task text opts (env m) = (task, w)"
    by (cases "new_Task text opts (env m)")
  have f: "t_text task = trim text" "t_completed task = or_false (o_completed opts)"
    using new_Task_fields [of "text" opts "env m"] nt by simp_all
  have c: "or_false (o_completed opts) = (o_completed opts = Some True)"
    by (simp add: or_false_def split: option.splits)
  show "\<exists>task. fst (addTask text opts m) = Inr task \<and>
         t_text task = trim text \<and>
         t_completed task = (o_completed opts = Some True) \<and>
         tasks (snd (addTask text opts m)) = task # tasks m \<and>
         getAllTasks (snd (addTask text opts m)) = task # tasks m \<and>
         length (tasks (snd (addTask text opts m))) = Suc (length (tasks m))"
    using ne t nt f c by (simp add: addTask_def Let_def getAllTasks_def)
qed

text \<open>
  The claim as stated promises \<open>completed = false\<close> for every \<open>options\<close>; the constructor
  takes \<open>options.completed\<close> over the default.
\<close>

theorem addTask_completed_counterexample:
  "trim ''Buy milk'' \<noteq> [] \<and>
   map_sum id t_completed
     (fst (addTask ''Buy milk'' (default_options\<lparr>o_completed := Some True\<rparr>) (sample_manager [])))
   = Inr True"
  by (simp add: addTask_def Let_def split_beta trim_def white_space_def new_Task_fields or_false_def
      default_options_def)

theorem addTask_spec_witness:
  "trim ''   '' = [] \<and>
   addTask ''   '' default_options (sample_manager []) = (Inl EmptyText, sample_manager []) \<and>
   trim '' Buy milk '' \<noteq> [] \<and>
   map t_text (tasks (snd (addTask '' Buy milk '' default_options (sample_manager two_tasks))))
     = [''Buy milk'', ''Buy milk'', ''Call dentist''] \<and>
   map t_completed (tasks (snd (addTask '' Buy milk '' default_options (sample_manager two_tasks))))
     = [False, False, True] \<and>
   addTask [CHR 0xE3, CHR 0x80, CHR 0x80] default_options (sample_manager two_tasks) =
     (Inl EmptyText, sample_manager two_tasks) \<and>
   map t_text (tasks (snd (addTask ([CHR 0xC2, CHR 0xA0] @ ''Pay rent'') default_options
     (sample_manager two_tasks)))) = [''Pay rent'', ''Buy milk'', ''Call dentist'']"
proof -
  have e: "trim ''   '' = []" by (simp add: trim_def white_space_def)
  have i: "trim [CHR 0xE3, CHR 0x80, CHR 0x80] = []" by (simp add: trim_def white_space_def)
  have b: "trim ([CHR 0xC2, CHR 0xA0] @ ''Pay rent'') = ''Pay rent''"
    by (simp add: trim_def white_space_def)
  from addTask_spec [of "[CHR 0xE3, CHR 0x80, CHR 0x80]" default_options "sample_manager two_tasks"] i
  have 4: "addTask [CHR 0xE3, CHR 0x80, CHR 0x80] default_options (sample_manager two_tasks) =
     (Inl EmptyText, sample_manager two_tasks)"
    by blast
  from addTask_spec [of "[CHR 0xC2, CHR 0xA0] @ ''Pay rent''" default_options
      "sample_manager two_tasks"] b
  obtain task' where
    "t_text task' = ''Pay rent''"
    "tasks (snd (addTask ([CHR 0xC2, CHR 0xA0] @ ''Pay rent'') default_options
       (sample_manager two_tasks))) = task' # tasks (sample_manager two_tasks)"
    by auto
  then have 5: "map t_text (tasks (snd (addTask ([CHR 0xC2, CHR 0xA0] @ ''Pay rent'') default_options
     (sample_manager two_tasks)))) = [''Pay rent'', ''Buy milk'', ''Call dentist'']"
    by (simp add: sample_manager_def two_tasks_def sample_task_def)
  have n: "trim '' Buy milk '' = ''Buy milk''" by (simp add: trim_def white_space_def)
  have d: "o_completed default_options \<noteq> Some True" by (simp add: default_options_def)
  from addTask_spec [of "''   ''" default_options "sample_manager []"] e
  have 1: "addTask ''   '' default_options (sample_manager []) = (Inl EmptyText, sample_manager [])"
    by blast
  from addTask_spec [of "'' Buy milk ''" default_options "sample_manager two_tasks"] n d
  obtain task where
    "t_text task = ''Buy milk''" "\<not> t_completed task"
    "tasks (snd (addTask '' Buy milk '' default_options (sample_manager two_tasks)))
       = task # tasks (sample_manager two_tasks)"
    by auto
  then have 2: "map t_text (tasks (snd (addTask '' Buy milk '' default_options (sample_manager two_tasks))))
     = [''Buy milk'', ''Buy milk'', ''Call dentist'']"
    and 3: "map t_completed (tasks (snd (addTask '' Buy milk '' default_options (sample_manager two_tasks))))
     = [False, False, True]"
    by (simp_all add: sample_manager_def two_tasks_def sample_task_def)
  from e 1 n 2 3 4 5 show ?thesis by simp
qed

section \<open>Importing in merge mode\<close>

lemma fromJSON_Some:
  "d_text d = Some s \<Longrightarrow>
   fromJSON d w = (Inr (fst (new_Task s \<lparr>o_id = d_id d, o_completed = d_completed d,
      o_createdAt = d_createdAt d, o_completedAt = d_completedAt d, o_updatedAt = d_updatedAt d,
      o_priority = d_priority d, o_category = d_category d, o_tags = d_tags d,
      o_dueDate = d_dueDate d, o_description = d_description d\<rparr> w)),
    snd (new_Task s \<lparr>o_id = d_id d, o_completed = d_completed d,
      o_createdAt = d_createdAt d, o_completedAt = d_completedAt d, o_updatedAt = d_updatedAt d,
      o_priority = d_priority d, o_category = d_category d, o_tags = d_tags d,
      o_dueDate = d_dueDate d, o_description = d_description d\<rparr> w))"
  by (simp add: fromJSON_def Let_def split_beta)

lemma fromJSON_same_id:
  assumes "fromJSON d w = (Inr t, w')"
  shows "same_id d t"
proof (cases "d_text d")
  case None
  with assms show ?thesis by (simp add: fromJSON_def)
next
  case (Some s)
  from fromJSON_Some [OF Some, of w] assms
  have "t = fst (new_Task s \<lparr>o_id = d_id d, o_completed = d_completed d,
      o_createdAt = d_createdAt d, o_completedAt = d_completedAt d, o_updatedAt = d_updatedAt d,
      o_priority = d_priority d, o_category = d_category d, o_tags = d_tags d,
      o_dueDate = d_dueDate d, o_description = d_description d\<rparr> w)"
    by simp
  then show ?thesis
    by (simp add: new_Task_fields same_id_def or_gen_def split: option.splits)
qed

lemma map_fromJSON_total:
  "list_all (\<lambda>d. d_text d \<noteq> None) ds \<Longrightarrow> \<exists>ts. fst (map_fromJSON ds w) = Inr ts"
proof (induction ds arbitrary: w)
  case Nil
  show ?case by simp
next
  case (Cons d ds)
  then obtain s where s: "d_text d = Some s" by auto
  obtain t w' where f: "fromJSON d w = (Inr t, w')" using fromJSON_Some [OF s, of w] by blast
  from Cons obtain ts where "fst (map_fromJSON ds w') = Inr ts" by fastforce
  then show ?case using f by (cases "map_fromJSON ds w'") simp
qed

lemma map_fromJSON_same_id:
  "map_fromJSON ds w = (Inr ts, w') \<Longrightarrow> list_all2 same_id ds ts"
proof (induction ds arbitrary: w ts w')
  case Nil
  then show ?case by simp
next
  case (Cons d ds)
  obtain r w1 where f: "fromJSON d w = (r, w1)" by (cases "fromJSON d w")
  show ?case
  proof (cases r)
    case (Inl e)
    with Cons.prems f show ?thesis by simp
  next
    case (Inr t)
    obtain r2 w2 where g: "map_fromJSON ds w1 = (r2, w2)" by (cases "map_fromJSON ds w1")
    show ?thesis
    proof (cases r2)
      case (Inl e)
      with Cons.prems f Inr g show ?thesis by simp
    next
      case r2: (Inr ts')
      with Cons.prems f Inr g have ts: "ts = t # ts'" by simp
      from Cons.IH g r2 have "list_all2 same_id ds ts'" by simp
      moreover from f Inr have "same_id d t" using fromJSON_same_id by simp
      ultimately show ?thesis using ts by simp
    qed
  qed
qed

lemma importTasks_tasks_fail:
  "fst (map_fromJSON ds (env m)) = Inl e \<Longrightarrow>
   tasks (snd (importTasks (Some ds) merge m)) = tasks m"
  by (cases "map_fromJSON ds (env m)") (simp add: importTasks_def)

lemma importTasks_tasks_merge:
  "fst (map_fromJSON ds (env m)) = Inr imported \<Longrightarrow>
   fst (importTasks (Some ds) True m) = Inr True \<and>
   tasks (snd (importTasks (Some ds) True m)) =
     tasks m @ filter (\<lambda>t. t_id t \<notin> t_id ` set (tasks m)) imported"
  by (cases "map_fromJSON ds (env m)") (simp add: importTasks_def Let_def)

text \<open>
  Claim C9. \<open>importTasks(data, merge = true)\<close> never overwrites: whatever \<open>data\<close> is, the
  tasks the collection held are still there, with their field values and at their
  positions. When the import succeeds (every record has a \<open>text\<close>), the tasks rebuilt
  from the records carry the records' ids (a record with no id or an empty one gets a
  generated id), and exactly those whose id no task of the collection carried before the
  call are appended, in the order of \<open>data\<close>.
\<close>

theorem importTasks_merge:
  "take (length (tasks m)) (tasks (snd (importTasks tasksData True m))) = tasks m \<and>
   (\<forall>ds. tasksData = Some ds \<and> list_all (\<lambda>d. d_text d \<noteq> None) ds \<longrightarrow>
      (\<exists>imported.
         fst (map_fromJSON ds (env m)) = Inr imported \<and>
         list_all2 same_id ds imported \<and>
         fst (importTasks tasksData True m) = Inr True \<and>
         tasks (snd (importTasks tasksData True m)) =
           tasks m @ filter (\<lambda>t. t_id t \<notin> t_id ` set (tasks m)) imported))"
proof (intro conjI allI impI)
  show "take (length (tasks m)) (tasks (snd (importTasks tasksData True m))) = tasks m"
  proof (cases tasksData)
    case None
    then show ?thesis by (simp add: importTasks_def)
  next
    case (Some ds)
    show ?thesis
    proof (cases "fst (map_fromJSON ds (env m))")
      case (Inl e)
      then show ?thesis using Some importTasks_tasks_fail by simp
    next
      case (Inr imported)
      then show ?thesis using Some importTasks_tasks_merge by simp
    qed
  qed
next
  fix ds
  assume a: "tasksData = Some ds \<and> list_all (\<lambda>d. d_text d \<noteq> None) ds"
  then obtain imported where i: "fst (map_fromJSON ds (env m)) = Inr imported"
    using map_fromJSON_total by blast
  then have "map_fromJSON ds (env m) = (Inr imported, snd (map_fromJSON ds (env m)))"
    by (cases "map_fromJSON ds (env m)") simp
  then have "list_all2 same_id ds imported" by (rule map_fromJSON_same_id)
  then show "\<exists>imported.
         fst (map_fromJSON ds (env m)) = Inr imported \<and>
         list_all2 same_id ds imported \<and>
         fst (importTasks tasksData True m) = Inr True \<and>
         tasks (snd (importTasks tasksData True m)) =
           tasks m @ filter (\<lambda>t. t_id t \<notin> t_id ` set (tasks m)) imported"
    using i a importTasks_tasks_merge [OF i] by auto
qed

theorem importTasks_merge_witness:
  "list_all (\<lambda>d. d_text d \<noteq> None) [sample_data ''a'' ''Other text'', sample_data ''c'' ''New task''] \<and>
   take 2 (tasks (snd (importTasks (Some [sample_data ''a'' ''Other text'', sample_data ''c'' ''New task''])
       True (sample_manager two_tasks)))) = two_tasks \<and>
   map t_id (tasks (snd (importTasks (Some [sample_data ''a'' ''Other text'', sample_data ''c'' ''New task''])
       True (sample_manager two_tasks)))) = [''a'', ''b'', ''c''] \<and>
   map t_text (tasks (snd (importTasks (Some [sample_data ''a'' ''Other text'', sample_data ''c'' ''New task''])
       True (sample_manager two_tasks)))) = [''Buy milk'', ''Call dentist'', ''New task'']"
proof -
  let ?ds = "[sample_data ''a'' ''Other text'', sample_data ''c'' ''New task'']"
  let ?m = "sample_manager two_tasks"
  have h: "list_all (\<lambda>d. d_text d \<noteq> None) ?ds" by (simp add: sample_data_def)
  have l: "length (tasks ?m) = 2" by (simp add: sample_manager_def two_tasks_def)
  have t: "tasks ?m = two_tasks" by (simp add: sample_manager_def)
  have tr: "trim ''Other text'' = ''Other text''" "trim ''New task'' = ''New task''"
    by (simp_all add: trim_def white_space_def)
  from importTasks_merge [of ?m "Some ?ds"] h l t
  obtain imported where
    i: "fst (map_fromJSON ?ds (env ?m)) = Inr imported"
    and r: "tasks (snd (importTasks (Some ?ds) True ?m)) =
           two_tasks @ filter (\<lambda>t. t_id t \<notin> t_id ` set two_tasks) imported"
    and k: "take 2 (tasks (snd (importTasks (Some ?ds) True ?m))) = two_tasks"
    by auto
  have "map t_id imported = [''a'', ''c''] \<and> map t_text imported = [''Other text'', ''New task'']"
    using i
    by (auto simp: sample_data_def fromJSON_Some new_Task_fields or_gen_def tr
        split: prod.splits sum.splits)
  then have "map t_id (tasks (snd (importTasks (Some ?ds) True ?m))) = [''a'', ''b'', ''c'']"
    and "map t_text (tasks (snd (importTasks (Some ?ds) True ?m))) = [''Buy milk'', ''Call dentist'', ''New task'']"
    using r by (auto simp: two_tasks_def sample_task_def)
  with h k show ?thesis by simp
qed

section \<open>Setting the filter and the sorting\<close>

text \<open>
  Claim C8, as the code has it. \<open>setFilter\<close> with an invalid filter returns \<open>false\<close> and
  changes nothing: no field, no event. With a valid filter it stores the filter and
  dispatches \<open>filterChanged\<close> alone. \<open>setSorting\<close> stores each valid component and leaves
  an invalid one as it was; on every call it dispatches exactly one \<open>sortingChanged\<close>,
  carrying the resulting \<open>sortBy\<close> and \<open>sortOrder\<close>, and nothing else: no \<open>tasksChanged\<close>,
  no change to the tasks or to the other fields.
\<close>

theorem setFilter_setSorting:
  "(f \<notin> set [''all'', ''active'', ''completed''] \<longrightarrow> setFilter f m = (False, m)) \<and>
   (f \<in> set [''all'', ''active'', ''completed''] \<longrightarrow>
      setFilter f m = (True, m\<lparr>filter_m := f, events := events m @ [FilterChanged f]\<rparr>)) \<and>
   sortBy (setSorting sby sord m) =
     (if sby \<in> set [''createdAt'', ''updatedAt'', ''priority'', ''text''] then sby else sortBy m) \<and>
   sortOrder (setSorting sby sord m) =
     (if (case sord of None \<Rightarrow> ''desc'' | Some s \<Rightarrow> s) \<in> set [''asc'', ''desc'']
      then (case sord of None \<Rightarrow> ''desc'' | Some s \<Rightarrow> s) else sortOrder m) \<and>
   events (setSorting sby sord m) =
     events m @ [SortingChanged (sortBy (setSorting sby sord m)) (sortOrder (setSorting sby sord m))] \<and>
   tasks (setSorting sby sord m) = tasks m \<and>
   filter_m (setSorting sby sord m) = filter_m m \<and>
   searchQuery (setSorting sby sord m) = searchQuery m \<and>
   env (setSorting sby sord m) = env m"
proof (intro conjI impI)
  assume "f \<notin> set [''all'', ''active'', ''completed'']"
  then show "setFilter f m = (False, m)"
    by (simp add: setFilter_def)
next
  assume "f \<in> set [''all'', ''active'', ''completed'']"
  then show "setFilter f m = (True, m\<lparr>filter_m := f, events := events m @ [FilterChanged f]\<rparr>)"
    by (simp add: setFilter_def dispatchEvent_def)
next
  show "sortBy (setSorting sby sord m) =
     (if sby \<in> set [''createdAt'', ''updatedAt'', ''priority'', ''text''] then sby else sortBy m)"
    by (simp add: setSorting_def Let_def)
next
  show "sortOrder (setSorting sby sord m) =
     (if (case sord of None \<Rightarrow> ''desc'' | Some s \<Rightarrow> s) \<in> set [''asc'', ''desc'']
      then (case sord of None \<Rightarrow> ''desc'' | Some s \<Rightarrow> s) else sortOrder m)"
    by (simp add: setSorting_def Let_def)
next
  show "events (setSorting sby sord m) =
     events m @ [SortingChanged (sortBy (setSorting sby sord m)) (sortOrder (setSorting sby sord m))]"
    by (simp add: setSorting_def Let_def)
next
  show "tasks (setSorting sby sord m) = tasks m"
    by (simp add: setSorting_def Let_def)
next
  show "filter_m (setSorting sby sord m) = filter_m m"
    by (simp add: setSorting_def Let_def)
next
  show "searchQuery (setSorting sby sord m) = searchQuery m"
    by (simp add: setSorting_def Let_def)
next
  show "env (setSorting sby sord m) = env m"
    by (simp add: setSorting_def Let_def)
qed

text \<open>
  The claim as stated has an invalid argument cause no event. \<open>setSorting\<close> dispatches
  \<open>sortingChanged\<close> outside its two guards: a call whose arguments are both invalid changes
  no field and still dispatches the event.
\<close>

theorem setSorting_invalid_counterexample:
  "''bogus'' \<notin> set [''createdAt'', ''updatedAt'', ''priority'', ''text''] \<and>
   ''bogus'' \<notin> set [''asc'', ''desc''] \<and>
   sortBy (setSorting ''bogus'' (Some ''bogus'') (sample_manager [])) = sortBy (sample_manager []) \<and>
   sortOrder (setSorting ''bogus'' (Some ''bogus'') (sample_manager [])) = sortOrder (sample_manager []) \<and>
   events (setSorting ''bogus'' (Some ''bogus'') (sample_manager [])) =
     events (sample_manager []) @ [SortingChanged ''createdAt'' ''desc'']"
  by (simp add: setSorting_def Let_def sample_manager_def)

theorem setFilter_setSorting_witness:
  "''bogus'' \<notin> set [''all'', ''active'', ''completed''] \<and>
   setFilter ''bogus'' (sample_manager two_tasks) = (False, sample_manager two_tasks) \<and>
   ''active'' \<in> set [''all'', ''active'', ''completed''] \<and>
   filter_m (snd (setFilter ''active'' (sample_manager two_tasks))) = ''active'' \<and>
   events (snd (setFilter ''active'' (sample_manager two_tasks))) = [FilterChanged ''active''] \<and>
   sortBy (setSorting ''text'' (Some ''up'') (sample_manager two_tasks)) = ''text'' \<and>
   sortOrder (setSorting ''text'' (Some ''up'') (sample_manager two_tasks)) = ''desc'' \<and>
   events (setSorting ''text'' (Some ''up'') (sample_manager two_tasks)) =
     [SortingChanged ''text'' ''desc'']"
proof -
  have i: "''bogus'' \<notin> set [''all'', ''active'', ''completed'']"
    and v: "''active'' \<in> set [''all'', ''active'', ''completed'']"
    by simp_all
  from setFilter_setSorting [of "''bogus''" "sample_manager two_tasks"] i
  have 1: "setFilter ''bogus'' (sample_manager two_tasks) = (False, sample_manager two_tasks)"
    by blast
  from setFilter_setSorting [of "''active''" "sample_manager two_tasks"] v
  have 2: "setFilter ''active'' (sample_manager two_tasks) =
      (True, (sample_manager two_tasks)\<lparr>filter_m := ''active'',
         events := events (sample_manager two_tasks) @ [FilterChanged ''active'']\<rparr>)"
    by blast
  from setFilter_setSorting [of "''bogus''" "sample_manager two_tasks" "''text''" "Some ''up''"]
  have 3: "sortBy (setSorting ''text'' (Some ''up'') (sample_manager two_tasks)) = ''text''"
    and 4: "sortOrder (setSorting ''text'' (Some ''up'') (sample_manager two_tasks)) = ''desc''"
    and 5: "events (setSorting ''text'' (Some ''up'') (sample_manager two_tasks)) =
      events (sample_manager two_tasks) @
        [SortingChanged (sortBy (setSorting ''text'' (Some ''up'') (sample_manager two_tasks)))
           (sortOrder (setSorting ''text'' (Some ''up'') (sample_manager two_tasks)))]"
    by (simp_all add: sample_manager_def)
  have 6: "events (setSorting ''text'' (Some ''up'') (sample_manager two_tasks)) =
     [SortingChanged ''text'' ''desc'']"
    using 3 4 5 by (simp add: sample_manager_def)
  from i v 1 2 3 4 6 show ?thesis by (simp add: sample_manager_def)
qed

section \<open>Trimming, timestamps and generated ids\<close>

lemma startsWith_append: "startsWith s q \<Longrightarrow> startsWith (s @ r) q"
  by (induction q arbitrary: s) (auto split: list.splits)

lemma strip_fixed:
  "strip tbl s = [] \<or> find (\<lambda>ws. startsWith (strip tbl s) ws) tbl = None"
  by (induction tbl s rule: strip.induct) (auto split: option.splits)

lemma strip_unmatched:
  "find (\<lambda>ws. startsWith s ws) tbl = None \<Longrightarrow> strip tbl s = s"
  by (cases s) simp_all

lemma strip_idem: "strip tbl (strip tbl s) = strip tbl s"
  using strip_fixed [of tbl s] by (auto simp: strip_unmatched)

lemma strip_suffix: "\<exists>p. s = p @ strip tbl s"
proof (induction tbl s rule: strip.induct)
  case (1 tbl)
  show ?case by simp
next
  case (2 tbl c cs)
  show ?case
  proof (cases "find (\<lambda>ws. startsWith (c # cs) ws) tbl")
    case None
    then show ?thesis by simp
  next
    case (Some ws)
    with 2 obtain p where "drop (length ws - 1) cs = p @ strip tbl (drop (length ws - 1) cs)"
      by blast
    then have "c # cs = (c # take (length ws - 1) cs @ p) @ strip tbl (drop (length ws - 1) cs)"
      by (metis append_Cons append_assoc append_take_drop_id)
    with Some show ?thesis by (metis strip.simps(2) option.simps(5))
  qed
qed

lemma trim_idem [simp]: "trim (trim s) = trim s"
proof -
  let ?W = white_space
  let ?R = "map rev white_space"
  let ?a = "strip ?W s"
  let ?b' = "strip ?R (rev ?a)"
  obtain p where p: "rev ?a = p @ ?b'" using strip_suffix by blast
  then have a: "?a = rev ?b' @ rev p" by (metis rev_append rev_rev_ident)
  have 1: "strip ?W (rev ?b') = rev ?b'"
  proof (cases "rev ?b' = []")
    case True
    then show ?thesis by simp
  next
    case False
    with a have "?a \<noteq> []" by (metis append_is_Nil_conv)
    with strip_fixed [of ?W s] have n: "find (\<lambda>ws. startsWith ?a ws) ?W = None" by simp
    have "find (\<lambda>ws. startsWith (rev ?b') ws) ?W = None"
    proof (rule ccontr)
      assume "find (\<lambda>ws. startsWith (rev ?b') ws) ?W \<noteq> None"
      then obtain ws where "ws \<in> set ?W" "startsWith (rev ?b') ws"
        by (auto simp: find_None_iff)
      then have "startsWith (rev ?b' @ rev p) ws" by (simp add: startsWith_append)
      with a \<open>ws \<in> set ?W\<close> n show False by (simp add: find_None_iff)
    qed
    then show ?thesis by (rule strip_unmatched)
  qed
  have "trim (trim s) = rev (strip ?R (rev (strip ?W (rev ?b'))))"
    by (simp add: trim_def)
  also have "\<dots> = rev (strip ?R ?b')" by (simp only: 1 rev_rev_ident)
  also have "\<dots> = rev ?b'" by (simp only: strip_idem)
  finally show ?thesis by (simp add: trim_def)
qed

lemma trim_ideographic_space: "trim [CHR 0xE3, CHR 0x80, CHR 0x80] = []"
  by (simp add: trim_def white_space_def)

lemma trim_no_break_space:
  "trim ([CHR 0xC2, CHR 0xA0] @ ''Buy milk'' @ [CHR 0xE2, CHR 0x80, CHR 0xA8, CHR 0x0A]) = ''Buy milk''"
  by (simp add: trim_def white_space_def)

lemma toISOString_nonempty [simp]: "toISOString ms \<noteq> []"
  by (simp add: toISOString_def Let_def split_beta)

lemma now_iso_nonempty [simp]: "fst (now_iso w) \<noteq> []"
  by (simp add: now_iso_def Date_now_def)

lemma generateId_nonempty [simp]: "fst (generateId w) \<noteq> []"
  by (simp add: generateId_def Date_now_def Math_random36_def)

section \<open>Serialisation round trip\<close>

lemma or_gen_simps:
  "or_gen None f w = f w"
  "or_gen (Some s) f w = (if s = [] then f w else (s, w))"
  by (simp_all add: or_gen_def)

lemma new_Task_times:
  "t_createdAt (fst (new_Task text opts w)) =
     fst (or_gen (o_createdAt opts) now_iso (snd (or_gen (o_id opts) generateId w)))"
  "t_updatedAt (fst (new_Task text opts w)) =
     fst (or_gen (o_updatedAt opts) now_iso
       (snd (or_gen (o_createdAt opts) now_iso (snd (or_gen (o_id opts) generateId w)))))"
  "snd (new_Task text opts w) =
     snd (or_gen (o_updatedAt opts) now_iso
       (snd (or_gen (o_createdAt opts) now_iso (snd (or_gen (o_id opts) generateId w)))))"
  by (simp_all add: new_Task_def Let_def split_beta)

lemma or_gen_nonempty:
  "(\<And>w. fst (f w) \<noteq> []) \<Longrightarrow> fst (or_gen x f w) \<noteq> []"
  by (simp add: or_gen_def split: option.splits)

lemma or_str_nonempty: "d \<noteq> [] \<Longrightarrow> or_str x d \<noteq> []"
  by (simp add: or_str_def split: option.splits)

lemma or_null_not_empty [simp]: "or_null x \<noteq> Some []"
  by (simp add: or_null_def split: option.splits)

lemma storable_new_Task: "storable (fst (new_Task text opts w))"
  by (simp add: storable_def new_Task_fields new_Task_times or_gen_nonempty or_str_nonempty)

lemma fromJSON_toJSON_storable:
  assumes "storable t"
  shows "fromJSON (toJSON t) w = (Inr t, w)"
proof -
  have "new_Task (t_text t) \<lparr>o_id = Some (t_id t), o_completed = Some (t_completed t),
      o_createdAt = Some (t_createdAt t), o_completedAt = t_completedAt t,
      o_updatedAt = Some (t_updatedAt t), o_priority = Some (t_priority t),
      o_category = Some (t_category t), o_tags = Some (t_tags t), o_dueDate = t_dueDate t,
      o_description = Some (t_description t)\<rparr> w = (t, w)"
    using assms
    by (simp add: storable_def new_Task_def or_gen_def or_false_def or_null_def or_str_def
        or_nil_def split: option.splits)
  then show ?thesis by (simp add: fromJSON_def toJSON_def)
qed

lemma fromJSON_toJSON_fst:
  "fst (fromJSON (toJSON t) w) =
     Inr (fst (new_Task (t_text t) \<lparr>o_id = Some (t_id t), o_completed = Some (t_completed t),
      o_createdAt = Some (t_createdAt t), o_completedAt = t_completedAt t,
      o_updatedAt = Some (t_updatedAt t), o_priority = Some (t_priority t),
      o_category = Some (t_category t), o_tags = Some (t_tags t), o_dueDate = t_dueDate t,
      o_description = Some (t_description t)\<rparr> w))"
  by (simp add: fromJSON_def toJSON_def split_beta)

lemma fromJSON_toJSON_only_storable:
  assumes "fst (fromJSON (toJSON t) w) = Inr t"
  shows "storable t"
proof -
  from assms have "storable (fst (new_Task (t_text t) \<lparr>o_id = Some (t_id t), o_completed = Some (t_completed t),
      o_createdAt = Some (t_createdAt t), o_completedAt = t_completedAt t,
      o_updatedAt = Some (t_updatedAt t), o_priority = Some (t_priority t),
      o_category = Some (t_category t), o_tags = Some (t_tags t), o_dueDate = t_dueDate t,
      o_description = Some (t_description t)\<rparr> w)) = storable t"
    by (simp add: fromJSON_toJSON_fst)
  then show ?thesis by (simp add: storable_new_Task)
qed

lemma storable_toggle: "storable t \<Longrightarrow> storable (fst (toggle t w))"
  by (simp add: storable_def toggle_def Let_def split_beta)

lemma storable_updateText: "storable t \<Longrightarrow> storable (fst (snd (updateText s t w)))"
  by (simp add: storable_def updateText_def Let_def split_beta)

lemma storable_setPriority: "storable t \<Longrightarrow> storable (fst (snd (setPriority p t w)))"
  by (auto simp: storable_def setPriority_def Let_def split_beta)

lemma storable_addTag: "storable t \<Longrightarrow> storable (fst (snd (addTag tag t w)))"
  by (simp add: storable_def addTag_def Let_def split_beta)

lemma storable_removeTag: "storable t \<Longrightarrow> storable (fst (snd (removeTag tag t w)))"
  by (simp add: storable_def removeTag_def Let_def split_beta)

lemma storable_setDueDate: "storable t \<Longrightarrow> storable (fst (snd (setDueDate d t w)))"
  by (simp add: storable_def setDueDate_def Let_def split_beta split: date_arg.splits)

text \<open>
  Claim C5, as the code has it. \<open>fromJSON(toJSON(task))\<close> has every field of \<open>task\<close>
  exactly when \<open>task\<close> is storable: its text is trimmed, its \<open>id\<close>, \<open>createdAt\<close>,
  \<open>updatedAt\<close>, \<open>priority\<close> and \<open>category\<close> are not the empty string, and its
  \<open>completedAt\<close> and \<open>dueDate\<close> are \<open>null\<close> or non-empty. For such a task the round trip
  reads neither the clock nor \<open>Math.random\<close>. Every task the constructor builds is
  storable, and \<open>toggle\<close>, \<open>updateText\<close>, \<open>setPriority\<close>, \<open>addTag\<close>, \<open>removeTag\<close> and
  \<open>setDueDate\<close> keep a storable task storable.
\<close>

theorem fromJSON_toJSON:
  "(fst (fromJSON (toJSON t) w) = Inr t) = storable t \<and>
   (storable t \<longrightarrow> fromJSON (toJSON t) w = (Inr t, w)) \<and>
   storable (fst (new_Task text opts w)) \<and>
   (storable t \<longrightarrow>
      storable (fst (toggle t w)) \<and>
      storable (fst (snd (updateText newText t w))) \<and>
      storable (fst (snd (setPriority priority t w))) \<and>
      storable (fst (snd (addTag tag t w))) \<and>
      storable (fst (snd (removeTag tag t w))) \<and>
      storable (fst (snd (setDueDate date t w))))"
  using fromJSON_toJSON_storable [of t w] fromJSON_toJSON_only_storable [of t w]
    storable_new_Task [of "text" opts w] storable_toggle [of t w]
    storable_updateText [of t newText w] storable_setPriority [of t priority w]
    storable_addTag [of t tag w] storable_removeTag [of t tag w] storable_setDueDate [of t date w]
  by auto

text \<open>
  The claim as stated covers every task. \<open>updateTask(id, {category: ''})\<close> assigns the
  empty category, and the constructor's \<open>options.category || 'default'\<close> then rebuilds the
  task with the category \<open>default\<close>.
\<close>

theorem fromJSON_toJSON_counterexample:
  "t_category
     (tasks (snd (updateTask ''a'' [K_category []]
        (sample_manager [sample_task ''a'' ''Buy milk'' False None]))) ! 0) = [] \<and>
   map_sum id t_category
     (fst (fromJSON
        (toJSON (tasks (snd (updateTask ''a'' [K_category []]
           (sample_manager [sample_task ''a'' ''Buy milk'' False None]))) ! 0))
        sample_world)) = Inr ''default''"
  by (simp add: updateTask_def Let_def split_beta assign_def sample_manager_def sample_task_def
      fromJSON_toJSON_fst new_Task_fields or_str_def)

theorem fromJSON_toJSON_witness:
  "storable (sample_task ''b'' ''Call dentist'' True (Some ''2024-03-02T00:00:00.000Z'')) \<and>
   fromJSON (toJSON (sample_task ''b'' ''Call dentist'' True (Some ''2024-03-02T00:00:00.000Z'')))
     sample_world
     = (Inr (sample_task ''b'' ''Call dentist'' True (Some ''2024-03-02T00:00:00.000Z'')), sample_world) \<and>
   d_category (toJSON (sample_task ''b'' ''Call dentist'' True (Some ''2024-03-02T00:00:00.000Z'')))
     = Some ''default'' \<and>
   \<not> storable (sample_task ''a'' ([CHR 0xC2, CHR 0xA0] @ ''Buy milk'') False None) \<and>
   fst (fromJSON (toJSON (sample_task ''a'' ([CHR 0xC2, CHR 0xA0] @ ''Buy milk'') False None))
     sample_world) \<noteq> Inr (sample_task ''a'' ([CHR 0xC2, CHR 0xA0] @ ''Buy milk'') False None)"
proof -
  have n: "\<not> storable (sample_task ''a'' ([CHR 0xC2, CHR 0xA0] @ ''Buy milk'') False None)"
    by (simp add: storable_def sample_task_def trim_def white_space_def)
  from fromJSON_toJSON
    [of "sample_task ''a'' ([CHR 0xC2, CHR 0xA0] @ ''Buy milk'') False None" sample_world] n
  have m: "fst (fromJSON (toJSON (sample_task ''a'' ([CHR 0xC2, CHR 0xA0] @ ''Buy milk'') False None))
     sample_world) \<noteq> Inr (sample_task ''a'' ([CHR 0xC2, CHR 0xA0] @ ''Buy milk'') False None)"
    by blast
  have s: "storable (sample_task ''b'' ''Call dentist'' True (Some ''2024-03-02T00:00:00.000Z''))"
    by (simp add: storable_def sample_task_def trim_def white_space_def)
  from fromJSON_toJSON
    [of "sample_task ''b'' ''Call dentist'' True (Some ''2024-03-02T00:00:00.000Z'')" sample_world] s
  have "fromJSON (toJSON (sample_task ''b'' ''Call dentist'' True (Some ''2024-03-02T00:00:00.000Z'')))
     sample_world
     = (Inr (sample_task ''b'' ''Call dentist'' True (Some ''2024-03-02T00:00:00.000Z'')), sample_world)"
    by blast
  with s n m show ?thesis by (simp add: toJSON_def sample_task_def)
qed

section \<open>Properties of every task that the operations preserve\<close>

lemma list_all_update: "list_all P xs \<Longrightarrow> P y \<Longrightarrow> list_all P (xs[i := y])"
  by (induction xs arbitrary: i) (auto split: nat.splits)

lemma list_all_nth: "list_all P xs \<Longrightarrow> i < length xs \<Longrightarrow> P (xs ! i)"
  by (simp add: list_all_length)

lemma removeTask_tasks_subset: "set (tasks (snd (removeTask taskId m))) \<subseteq> set (tasks m)"
proof (cases "findIndex (\<lambda>task. t_id task = taskId) (tasks m)")
  case None
  then show ?thesis by (simp add: removeTask_def)
next
  case (Some i)
  have "set (take i (tasks m)) \<subseteq> set (tasks m)" "set (drop (Suc i) (tasks m)) \<subseteq> set (tasks m)"
    by (rule set_take_subset, rule set_drop_subset)
  then show ?thesis using Some by (simp add: removeTask_def Let_def)
qed

lemma removeTask_list_all:
  "list_all P (tasks m) \<Longrightarrow> list_all P (tasks (snd (removeTask taskId m)))"
  using removeTask_tasks_subset [of taskId m] by (auto simp: list_all_iff)

lemma updateTask_tasks:
  "tasks (snd (updateTask taskId us m)) =
     (case findIndex (\<lambda>t. t_id t = taskId) (tasks m) of
        None \<Rightarrow> tasks m
      | Some i \<Rightarrow> (tasks m)[i := fst (applyUpdates us (tasks m ! i) (env m))])"
  by (simp add: updateTask_def Let_def split_beta split: option.splits)

lemma updateTask_list_all:
  assumes "list_all P (tasks m)"
    and "\<And>t w. P t \<Longrightarrow> P (fst (applyUpdates us t w))"
  shows "list_all P (tasks (snd (updateTask taskId us m)))"
proof (cases "findIndex (\<lambda>t. t_id t = taskId) (tasks m)")
  case None
  with assms(1) show ?thesis by (simp add: updateTask_tasks)
next
  case (Some i)
  then have "i < length (tasks m)" using findIndex_Some by fastforce
  with assms(1) have "P (tasks m ! i)" by (rule list_all_nth)
  then have "P (fst (applyUpdates us (tasks m ! i) (env m)))" by (rule assms(2))
  with assms(1) Some show ?thesis by (simp add: updateTask_tasks list_all_update)
qed

lemma applyUpdates_single: "applyUpdates [u] t w = applyUpdate u t w"
  by (simp add: split_beta)

lemma toggleTask_list_all:
  assumes "list_all P (tasks m)"
    and "\<And>t w. P t \<Longrightarrow> P (fst (toggle t w))"
  shows "list_all P (tasks (snd (toggleTask taskId m)))"
proof (cases "getTask taskId m")
  case (Inl e)
  with assms(1) show ?thesis by (simp add: toggleTask_def)
next
  case (Inr task)
  have "P (fst (applyUpdates [K_completed b] t w))" if "P t" for t w b
    using that assms(2) [OF that, of w] by (simp add: applyUpdates_single del: applyUpdates.simps)
  then have "list_all P (tasks (snd (updateTask taskId [K_completed (\<not> t_completed task)] m)))"
    by (rule updateTask_list_all [OF assms(1)])
  with Inr show ?thesis by (simp add: toggleTask_def)
qed

lemma bulkComplete_loop_list_all:
  assumes "\<And>t w. P t \<Longrightarrow> P (fst (toggle t w))"
  shows "list_all P (tasks m) \<Longrightarrow> list_all P (tasks (snd (bulkComplete_loop taskIds acc m)))"
proof (induction taskIds arbitrary: acc m)
  case Nil
  then show ?case by simp
next
  case (Cons taskId taskIds)
  show ?case
  proof (cases "getTask taskId m")
    case (Inl e)
    then show ?thesis using Cons by simp
  next
    case (Inr task)
    obtain r m' where tg: "toggleTask taskId m = (r, m')" by (cases "toggleTask taskId m")
    have "list_all P (tasks m')"
      using toggleTask_list_all [of P m taskId] Cons.prems assms tg by simp
    then show ?thesis using Inr tg Cons by (cases r) simp_all
  qed
qed

lemma bulkDelete_loop_list_all:
  "list_all P (tasks m) \<Longrightarrow> list_all P (tasks (snd (bulkDelete_loop taskIds acc m)))"
proof (induction taskIds arbitrary: acc m)
  case Nil
  then show ?case by simp
next
  case (Cons taskId taskIds)
  obtain r m' where rm: "removeTask taskId m = (r, m')" by (cases "removeTask taskId m")
  have "list_all P (tasks m')"
    using removeTask_list_all [of P m taskId] Cons.prems rm by simp
  then show ?case using rm Cons by (cases r) simp_all
qed

lemma importTasks_list_all:
  assumes "list_all P (tasks m)"
    and "\<And>ds ts. tasksData = Some ds \<Longrightarrow> fst (map_fromJSON ds (env m)) = Inr ts \<Longrightarrow> list_all P ts"
  shows "list_all P (tasks (snd (importTasks tasksData merge m)))"
proof (cases tasksData)
  case None
  with assms(1) show ?thesis by (simp add: importTasks_def)
next
  case (Some ds)
  obtain r w where mf: "map_fromJSON ds (env m) = (r, w)" by (cases "map_fromJSON ds (env m)")
  show ?thesis
  proof (cases r)
    case (Inl e)
    with assms(1) Some mf show ?thesis by (simp add: importTasks_def)
  next
    case (Inr ts)
    with assms(2) Some mf have "list_all P ts" by simp
    with assms(1) Some mf Inr show ?thesis
      by (auto simp: importTasks_def Let_def list_all_iff)
  qed
qed

lemma exec_list_all:
  assumes inv: "list_all P (tasks m)"
    and add: "\<And>text opts. c = AddTask text opts \<Longrightarrow> trim text \<noteq> [] \<Longrightarrow>
               P (fst (new_Task text opts (env m)))"
    and upd: "\<And>taskId us t w. c = UpdateTask taskId us \<Longrightarrow> P t \<Longrightarrow> P (fst (applyUpdates us t w))"
    and tog: "\<And>t w. P t \<Longrightarrow> P (fst (toggle t w))"
    and cal: "\<And>taskId mth t w. c = CallTask taskId mth \<Longrightarrow> P t \<Longrightarrow> P (fst (call mth t w))"
    and imp: "\<And>ds mg ts. c = ImportTasks (Some ds) mg \<Longrightarrow>
               fst (map_fromJSON ds (env m)) = Inr ts \<Longrightarrow> list_all P ts"
  shows "list_all P (tasks (exec c m))"
proof (cases c)
  case (AddTask tx opts)
  show ?thesis
  proof (cases "trim tx = []")
    case True
    with inv AddTask show ?thesis by (simp add: addTask_def)
  next
    case False
    then have "tx \<noteq> []" by auto
    with False inv add [OF AddTask False] AddTask show ?thesis
      by (simp add: addTask_def Let_def split_beta)
  qed
next
  case (RemoveTask taskId)
  with inv show ?thesis by (simp add: removeTask_list_all)
next
  case (UpdateTask taskId us)
  with inv upd show ?thesis by (simp add: updateTask_list_all)
next
  case (ToggleTask taskId)
  with inv tog show ?thesis by (simp add: toggleTask_list_all)
next
  case (CallTask taskId mth)
  show ?thesis
  proof (cases "findIndex (\<lambda>t. t_id t = taskId) (tasks m)")
    case None
    with inv CallTask show ?thesis by simp
  next
    case (Some i)
    then have "i < length (tasks m)" using findIndex_Some by fastforce
    with inv have "P (tasks m ! i)" by (rule list_all_nth)
    then have "P (fst (call mth (tasks m ! i) (env m)))" by (rule cal [OF CallTask])
    with inv Some CallTask show ?thesis by (simp add: split_beta list_all_update)
  qed
next
  case (BulkComplete taskIds)
  with inv tog show ?thesis by (simp add: bulkComplete_def bulkComplete_loop_list_all)
next
  case (BulkDelete taskIds)
  with inv show ?thesis by (simp add: bulkDelete_def bulkDelete_loop_list_all)
next
  case ClearCompleted
  with inv show ?thesis by (simp add: clearCompleted_def Let_def list_all_iff)
next
  case Reset
  then show ?thesis by (simp add: reset_def Let_def)
next
  case (ImportTasks tasksData mg)
  with inv imp show ?thesis by (simp add: importTasks_list_all)
next
  case (SetFilter f)
  with inv show ?thesis by (simp add: setFilter_def)
next
  case (SetSearchQuery q)
  with inv show ?thesis by (simp add: setSearchQuery_def Let_def)
next
  case (SetSorting sby sord)
  with inv show ?thesis by (simp add: setSorting_def Let_def)
qed

lemma run_list_all:
  assumes step: "\<And>c m. safe c \<Longrightarrow> list_all P (tasks m) \<Longrightarrow> list_all P (tasks (exec c m))"
  shows "list_all safe cs \<Longrightarrow> list_all P (tasks m) \<Longrightarrow> list_all P (tasks (run cs m))"
proof (induction cs arbitrary: m)
  case Nil
  then show ?case by simp
next
  case (Cons c cs)
  from Cons.prems have "list_all P (tasks (exec c m))" by (simp add: step)
  with Cons show ?case by simp
qed

lemma map_fromJSON_list_all:
  assumes one: "\<And>d w t. d \<in> set ds \<Longrightarrow> fst (fromJSON d w) = Inr t \<Longrightarrow> P t"
  shows "fst (map_fromJSON ds w) = Inr ts \<Longrightarrow> list_all P ts"
  using one
proof (induction ds arbitrary: w ts)
  case Nil
  then show ?case by simp
next
  case (Cons d ds)
  obtain r w1 where f: "fromJSON d w = (r, w1)" by (cases "fromJSON d w")
  show ?case
  proof (cases r)
    case (Inl e)
    with Cons.prems(1) f show ?thesis by simp
  next
    case (Inr t)
    obtain r2 w2 where g: "map_fromJSON ds w1 = (r2, w2)" by (cases "map_fromJSON ds w1")
    show ?thesis
    proof (cases r2)
      case (Inl e)
      with Cons.prems(1) f Inr g show ?thesis by simp
    next
      case r2: (Inr ts')
      with Cons.prems(1) f Inr g have ts: "ts = t # ts'" by simp
      have hd: "P t" using Cons.prems(2) [of d w t] f Inr by simp
      have sub: "\<And>d' w t. d' \<in> set ds \<Longrightarrow> fst (fromJSON d' w) = Inr t \<Longrightarrow> P t"
        using Cons.prems(2) by auto
      from g r2 have "fst (map_fromJSON ds w1) = Inr ts'" by simp
      then have "list_all P ts'" using sub by (rule Cons.IH)
      with hd ts show ?thesis by simp
    qed
  qed
qed

section \<open>The text of a task\<close>

lemma has_text_new_Task: "has_text (fst (new_Task text opts w)) = (trim text \<noteq> [])"
  by (simp add: has_text_def new_Task_fields)

lemma has_text_toggle: "has_text (fst (toggle t w)) = has_text t"
  by (simp add: has_text_def toggle_def Let_def split_beta)

lemma has_text_updateText: "has_text t \<Longrightarrow> has_text (fst (snd (updateText s t w)))"
  by (simp add: has_text_def updateText_def Let_def split_beta)

lemma has_text_setPriority: "has_text (fst (snd (setPriority p t w))) = has_text t"
  by (simp add: has_text_def setPriority_def Let_def split_beta)

lemma has_text_addTag: "has_text (fst (snd (addTag tag t w))) = has_text t"
  by (simp add: has_text_def addTag_def Let_def split_beta)

lemma has_text_removeTag: "has_text (fst (snd (removeTag tag t w))) = has_text t"
  by (simp add: has_text_def removeTag_def Let_def split_beta)

lemma has_text_setDueDate: "has_text (fst (snd (setDueDate d t w))) = has_text t"
  by (simp add: has_text_def setDueDate_def Let_def split_beta split: date_arg.splits)

lemma has_text_call: "has_text t \<Longrightarrow> has_text (fst (call mth t w))"
  by (cases mth)
     (simp_all add: has_text_toggle has_text_updateText has_text_setPriority has_text_addTag
        has_text_removeTag has_text_setDueDate)

lemma has_text_applyUpdate:
  "(case u of K_text v \<Rightarrow> v \<noteq> [] | _ \<Rightarrow> True) \<Longrightarrow> has_text t \<Longrightarrow>
   has_text (fst (applyUpdate u t w))"
  by (cases u)
     (simp_all add: has_text_toggle has_text_updateText has_text_setPriority
        has_text_setDueDate, simp_all add: has_text_def assign_def split_beta)

lemma has_text_applyUpdates:
  "list_all (\<lambda>u. case u of K_text v \<Rightarrow> v \<noteq> [] | _ \<Rightarrow> True) us \<Longrightarrow> has_text t \<Longrightarrow>
   has_text (fst (applyUpdates us t w))"
proof (induction us arbitrary: t w)
  case Nil
  then show ?case by simp
next
  case (Cons u us)
  from Cons.prems have "has_text (fst (applyUpdate u t w))"
    by (simp add: has_text_applyUpdate)
  with Cons show ?case by (simp add: split_beta)
qed

lemma has_text_fromJSON:
  assumes "case d_text d of None \<Rightarrow> True | Some s \<Rightarrow> trim s \<noteq> []"
    and "fst (fromJSON d w) = Inr t"
  shows "has_text t"
proof (cases "d_text d")
  case None
  with assms(2) show ?thesis by (simp add: fromJSON_def)
next
  case (Some s)
  with assms(2) fromJSON_Some [OF Some, of w] have "t_text t = trim s"
    by (auto simp: new_Task_fields)
  with assms(1) Some show ?thesis by (simp add: has_text_def)
qed

lemma exec_has_text:
  assumes "text_safe c" "list_all has_text (tasks m)"
  shows "list_all has_text (tasks (exec c m))"
proof (rule exec_list_all [OF assms(2)])
  fix tx opts
  assume "trim tx \<noteq> []"
  then show "has_text (fst (new_Task tx opts (env m)))" by (simp add: has_text_new_Task)
next
  fix taskId us t w
  assume "c = UpdateTask taskId us" "has_text t"
  with assms(1) show "has_text (fst (applyUpdates us t w))"
    by (simp add: has_text_applyUpdates)
next
  fix t w
  assume "has_text t"
  then show "has_text (fst (toggle t w))" by (simp add: has_text_toggle)
next
  fix taskId mth t w
  assume "has_text t"
  then show "has_text (fst (call mth t w))" by (rule has_text_call)
next
  fix ds mg ts
  assume c: "c = ImportTasks (Some ds) mg" and r: "fst (map_fromJSON ds (env m)) = Inr ts"
  from assms(1) c have "\<And>d. d \<in> set ds \<Longrightarrow> (case d_text d of None \<Rightarrow> True | Some s \<Rightarrow> trim s \<noteq> [])"
    by (simp add: list_all_iff)
  then have "\<And>d w t. d \<in> set ds \<Longrightarrow> fst (fromJSON d w) = Inr t \<Longrightarrow> has_text t"
    using has_text_fromJSON by blast
  then show "list_all has_text ts" using r by (rule map_fromJSON_list_all)
qed

text \<open>
  Claim C2, as the code has it. The constructor does not validate: the task it builds has
  a non-empty text exactly when the text it is given is non-empty after trimming.
  \<open>updateText\<close> applies a new text only when that is non-empty after trimming, and then
  the text is the trimmed one; otherwise the task is untouched. The other methods of a
  task leave its text alone. If every task of the
  collection has a non-empty text, then so has every task after any sequence of public
  operations (the methods of a task of the collection, and every operation of the
  manager) in which no \<open>updateTask\<close> carries a falsy \<open>text\<close> value (of the strings, the
  empty one) and every record given to \<open>importTasks\<close> has a text that is non-empty after
  trimming.
\<close>

theorem text_stays_non_empty:
  "has_text (fst (new_Task text opts w)) = (trim text \<noteq> []) \<and>
   (fst (updateText newText t w) \<longrightarrow>
      trim newText \<noteq> [] \<and> t_text (fst (snd (updateText newText t w))) = trim newText) \<and>
   (\<not> fst (updateText newText t w) \<longrightarrow> fst (snd (updateText newText t w)) = t) \<and>
   (list_all text_safe cs \<and> list_all has_text (tasks m) \<longrightarrow>
      list_all has_text (tasks (run cs m))) \<and>
   (case mth of UpdateText s \<Rightarrow> True | _ \<Rightarrow> t_text (fst (call mth t w)) = t_text t)"
proof (intro conjI impI)
  show "has_text (fst (new_Task text opts w)) = (trim text \<noteq> [])"
    by (rule has_text_new_Task)
next
  show "case mth of UpdateText s \<Rightarrow> True | _ \<Rightarrow> t_text (fst (call mth t w)) = t_text t"
    by (cases mth)
       (simp_all add: toggle_def setPriority_def addTag_def removeTag_def setDueDate_def
          Let_def split_beta split: date_arg.splits)
next
  assume "fst (updateText newText t w)"
  then show "trim newText \<noteq> []"
    by (simp add: updateText_def split: if_splits)
next
  assume "fst (updateText newText t w)"
  then show "t_text (fst (snd (updateText newText t w))) = trim newText"
    by (simp add: updateText_def split_beta split: if_splits)
next
  assume "\<not> fst (updateText newText t w)"
  then show "fst (snd (updateText newText t w)) = t"
    by (simp add: updateText_def split_beta split: if_splits)
next
  assume "list_all text_safe cs \<and> list_all has_text (tasks m)"
  then show "list_all has_text (tasks (run cs m))"
    using run_list_all [of text_safe has_text cs m] exec_has_text by blast
qed

text \<open>
  The claim as stated covers every import and every \<open>updateTask\<close>. \<open>importTasks\<close> rebuilds
  a record whose text is blank into a task with the empty text, and
  \<open>updateTask(id, {text: ''})\<close> fails the guard of the \<open>text\<close> branch and falls through to
  the generic branch, which assigns the empty text.
\<close>

theorem empty_text_counterexample:
  "map t_text (tasks (snd (importTasks (Some [sample_data ''c'' ''   '']) True
      (sample_manager [sample_task ''a'' ''Buy milk'' False None])))) = [''Buy milk'', []] \<and>
   map t_text (tasks (snd (importTasks (Some [sample_data ''c'' [CHR 0xE3, CHR 0x80, CHR 0x80]]) True
      (sample_manager [sample_task ''a'' ''Buy milk'' False None])))) = [''Buy milk'', []] \<and>
   map t_text (tasks (snd (updateTask ''a'' [K_text []]
      (sample_manager [sample_task ''a'' ''Buy milk'' False None])))) = [[]]"
  by (simp add: importTasks_def updateTask_def Let_def split_beta fromJSON_Some new_Task_fields
      assign_def sample_data_def sample_manager_def sample_task_def trim_def white_space_def
      or_gen_def)

theorem text_stays_non_empty_witness:
  "list_all text_safe sample_commands \<and>
   list_all has_text (tasks (sample_manager two_tasks)) \<and>
   list_all has_text (tasks (run sample_commands (sample_manager two_tasks))) \<and>
   map t_text (tasks (run sample_commands (sample_manager two_tasks))) =
     [''Pay rent'', ''Buy oat milk'', ''Call dentist''] \<and>
   fst (updateText '' Buy oat milk '' (sample_task ''a'' ''Buy milk'' False None) sample_world) \<and>
   t_text (fst (snd (updateText '' Buy oat milk '' (sample_task ''a'' ''Buy milk'' False None)
      sample_world))) = ''Buy oat milk'' \<and>
   \<not> fst (updateText ''   '' (sample_task ''a'' ''Buy milk'' False None) sample_world) \<and>
   fst (snd (updateText ''   '' (sample_task ''a'' ''Buy milk'' False None) sample_world)) =
     sample_task ''a'' ''Buy milk'' False None"
proof -
  have s: "list_all text_safe sample_commands"
    by (simp add: sample_commands_def)
  have h: "list_all has_text (tasks (sample_manager two_tasks))"
    by (simp add: sample_manager_def two_tasks_def sample_task_def has_text_def)
  have u1: "fst (updateText '' Buy oat milk '' (sample_task ''a'' ''Buy milk'' False None) sample_world)"
    and u2: "\<not> fst (updateText ''   '' (sample_task ''a'' ''Buy milk'' False None) sample_world)"
    and tr: "trim '' Buy oat milk '' = ''Buy oat milk''"
    by (simp_all add: updateText_def trim_def white_space_def split_beta)
  have r: "map t_text (tasks (run sample_commands (sample_manager two_tasks))) =
     [''Pay rent'', ''Buy oat milk'', ''Call dentist'']"
    by (simp add: sample_commands_def sample_manager_def two_tasks_def sample_task_def
        default_options_def addTask_def updateTask_def toggleTask_def getTask_def Let_def split_beta
        new_Task_fields or_gen_def updateText_def setPriority_def toggle_def
        trim_def white_space_def)
  from text_stays_non_empty [of _ _ sample_world "'' Buy oat milk ''"
      "sample_task ''a'' ''Buy milk'' False None" sample_commands "sample_manager two_tasks"] s h u1 tr
  have 1: "list_all has_text (tasks (run sample_commands (sample_manager two_tasks)))"
    and 2: "t_text (fst (snd (updateText '' Buy oat milk '' (sample_task ''a'' ''Buy milk'' False None)
      sample_world))) = ''Buy oat milk''"
    by simp_all
  from text_stays_non_empty [of _ _ sample_world "''   ''"
      "sample_task ''a'' ''Buy milk'' False None" sample_commands "sample_manager two_tasks"] u2
  have 3: "fst (snd (updateText ''   '' (sample_task ''a'' ''Buy milk'' False None) sample_world)) =
     sample_task ''a'' ''Buy milk'' False None"
    by blast
  from s h 1 r u1 2 u2 3 show ?thesis by blast
qed

section \<open>Completion and its timestamp\<close>

lemma Date_now_simps [simp]:
  "fst (Date_now w) = clock w (reads w)"
  "reads (snd (Date_now w)) = Suc (reads w)"
  "clock (snd (Date_now w)) = clock w"
  by (simp_all add: Date_now_def)

lemma now_iso_simps [simp]:
  "fst (now_iso w) = toISOString (clock w (reads w))"
  "reads (snd (now_iso w)) = Suc (reads w)"
  "clock (snd (now_iso w)) = clock w"
  by (simp_all add: now_iso_def split_beta)

lemma toggle_fields:
  "t_completed (fst (toggle t w)) = (\<not> t_completed t)"
  "t_completedAt (fst (toggle t w)) =
     (if t_completed t then None else Some (toISOString (clock w (reads w))))"
  "t_updatedAt (fst (toggle t w)) =
     toISOString (clock w (reads w + (if t_completed t then 0 else 1)))"
  "t_id (fst (toggle t w)) = t_id t"
  "reads (snd (toggle t w)) = reads w + (if t_completed t then 1 else 2)"
  "clock (snd (toggle t w)) = clock w"
  by (simp_all add: toggle_def Let_def split_beta)

lemma completion_ok_toggle: "completion_ok (fst (toggle t w))"
  by (simp add: completion_ok_def toggle_fields)

lemma completion_ok_new_Task:
  "completion_ok (fst (new_Task text opts w)) = options_ok (o_completed opts) (o_completedAt opts)"
  by (simp add: completion_ok_def options_ok_def new_Task_fields)

lemma completion_ok_updateText:
  "completion_ok (fst (snd (updateText s t w))) = completion_ok t"
  by (simp add: completion_ok_def updateText_def Let_def split_beta)

lemma completion_ok_setPriority:
  "completion_ok (fst (snd (setPriority p t w))) = completion_ok t"
  by (simp add: completion_ok_def setPriority_def Let_def split_beta)

lemma completion_ok_addTag:
  "completion_ok (fst (snd (addTag tag t w))) = completion_ok t"
  by (simp add: completion_ok_def addTag_def Let_def split_beta)

lemma completion_ok_removeTag:
  "completion_ok (fst (snd (removeTag tag t w))) = completion_ok t"
  by (simp add: completion_ok_def removeTag_def Let_def split_beta)

lemma completion_ok_setDueDate:
  "completion_ok (fst (snd (setDueDate d t w))) = completion_ok t"
  by (simp add: completion_ok_def setDueDate_def Let_def split_beta split: date_arg.splits)

lemma completion_ok_call: "completion_ok t \<Longrightarrow> completion_ok (fst (call mth t w))"
  by (cases mth)
     (simp_all add: completion_ok_toggle completion_ok_updateText completion_ok_setPriority
        completion_ok_addTag completion_ok_removeTag completion_ok_setDueDate)

lemma completion_ok_applyUpdate:
  "(case u of K_completedAt v \<Rightarrow> False | _ \<Rightarrow> True) \<Longrightarrow> completion_ok t \<Longrightarrow>
   completion_ok (fst (applyUpdate u t w))"
  by (cases u)
     (simp_all add: completion_ok_toggle completion_ok_updateText completion_ok_setPriority
        completion_ok_setDueDate, simp_all add: completion_ok_def assign_def split_beta)

lemma completion_ok_applyUpdates:
  "list_all (\<lambda>u. case u of K_completedAt v \<Rightarrow> False | _ \<Rightarrow> True) us \<Longrightarrow> completion_ok t \<Longrightarrow>
   completion_ok (fst (applyUpdates us t w))"
proof (induction us arbitrary: t w)
  case Nil
  then show ?case by simp
next
  case (Cons u us)
  from Cons.prems have "completion_ok (fst (applyUpdate u t w))"
    by (simp add: completion_ok_applyUpdate)
  with Cons show ?case by (simp add: split_beta)
qed

lemma completion_ok_fromJSON:
  assumes "options_ok (d_completed d) (d_completedAt d)"
    and "fst (fromJSON d w) = Inr t"
  shows "completion_ok t"
proof (cases "d_text d")
  case None
  with assms(2) show ?thesis by (simp add: fromJSON_def)
next
  case (Some s)
  with assms(2) fromJSON_Some [OF Some, of w]
  have "t_completed t = or_false (d_completed d)" "t_completedAt t = or_null (d_completedAt d)"
    by (auto simp: new_Task_fields)
  with assms(1) show ?thesis by (simp add: completion_ok_def options_ok_def)
qed

lemma exec_completion_ok:
  assumes "completion_safe c" "list_all completion_ok (tasks m)"
  shows "list_all completion_ok (tasks (exec c m))"
proof (rule exec_list_all [OF assms(2)])
  fix tx opts
  assume "c = AddTask tx opts"
  with assms(1) show "completion_ok (fst (new_Task tx opts (env m)))"
    by (simp add: completion_ok_new_Task)
next
  fix taskId us t w
  assume "c = UpdateTask taskId us" "completion_ok t"
  with assms(1) show "completion_ok (fst (applyUpdates us t w))"
    by (simp add: completion_ok_applyUpdates)
next
  fix t w
  show "completion_ok (fst (toggle t w))" by (rule completion_ok_toggle)
next
  fix taskId mth t w
  assume "completion_ok t"
  then show "completion_ok (fst (call mth t w))" by (rule completion_ok_call)
next
  fix ds mg ts
  assume c: "c = ImportTasks (Some ds) mg" and r: "fst (map_fromJSON ds (env m)) = Inr ts"
  from assms(1) c have "\<And>d. d \<in> set ds \<Longrightarrow> options_ok (d_completed d) (d_completedAt d)"
    by (simp add: list_all_iff)
  then have "\<And>d w t. d \<in> set ds \<Longrightarrow> fst (fromJSON d w) = Inr t \<Longrightarrow> completion_ok t"
    using completion_ok_fromJSON by blast
  then show "list_all completion_ok ts" using r by (rule map_fromJSON_list_all)
qed

text \<open>
  Claim C3, as the code has it. \<open>toggle\<close> flips \<open>completed\<close>, sets \<open>completedAt\<close> to the
  clock's reading when \<open>completed\<close> becomes true and to \<open>null\<close> when it becomes false, so
  after a toggle \<open>completedAt\<close> is non-null if and only if \<open>completed\<close> is true. The
  constructor takes \<open>completed\<close> and \<open>completedAt\<close> from its options one by one: the
  task it builds has the property exactly when the two options are both truthy or both
  falsy, as they are by default. If every task of the collection has the property, then
  so has every task after any sequence of public operations in which every \<open>addTask\<close>
  and every imported record gives \<open>completed\<close> and \<open>completedAt\<close> that agree, and no
  \<open>updateTask\<close> assigns \<open>completedAt\<close>.
\<close>

theorem completedAt_iff_completed:
  "t_completed (fst (toggle t w)) = (\<not> t_completed t) \<and>
   t_completedAt (fst (toggle t w)) =
     (if t_completed t then None else Some (toISOString (clock w (reads w)))) \<and>
   completion_ok (fst (toggle t w)) \<and>
   completion_ok (fst (new_Task text opts w)) =
     options_ok (o_completed opts) (o_completedAt opts) \<and>
   (list_all completion_safe cs \<and> list_all completion_ok (tasks m) \<longrightarrow>
      list_all completion_ok (tasks (run cs m)))"
proof (intro conjI impI)
  show "t_completed (fst (toggle t w)) = (\<not> t_completed t)"
    by (simp add: toggle_fields)
next
  show "t_completedAt (fst (toggle t w)) =
     (if t_completed t then None else Some (toISOString (clock w (reads w))))"
    by (simp add: toggle_fields)
next
  show "completion_ok (fst (toggle t w))" by (rule completion_ok_toggle)
next
  show "completion_ok (fst (new_Task text opts w)) =
     options_ok (o_completed opts) (o_completedAt opts)"
    by (rule completion_ok_new_Task)
next
  assume "list_all completion_safe cs \<and> list_all completion_ok (tasks m)"
  then show "list_all completion_ok (tasks (run cs m))"
    using run_list_all [of completion_safe completion_ok cs m] exec_completion_ok by blast
qed

text \<open>
  The claim as stated includes construction with option overrides:
  \<open>addTask('Buy milk', {completed: true})\<close> returns a completed task whose \<open>completedAt\<close>
  is \<open>null\<close>.
\<close>

theorem completedAt_iff_completed_counterexample:
  "map_sum id t_completed
     (fst (addTask ''Buy milk'' (default_options\<lparr>o_completed := Some True\<rparr>) (sample_manager [])))
     = Inr True \<and>
   map_sum id t_completedAt
     (fst (addTask ''Buy milk'' (default_options\<lparr>o_completed := Some True\<rparr>) (sample_manager [])))
     = Inr None"
  by (simp add: addTask_def Let_def split_beta trim_def white_space_def new_Task_fields or_false_def
      or_null_def default_options_def)

theorem completedAt_iff_completed_witness:
  "list_all completion_safe sample_commands \<and>
   list_all completion_ok (tasks (sample_manager two_tasks)) \<and>
   list_all completion_ok (tasks (run sample_commands (sample_manager two_tasks))) \<and>
   map t_completed (tasks (run sample_commands (sample_manager two_tasks))) = [True, False, True] \<and>
   map (\<lambda>t. t_completedAt t = None) (tasks (run sample_commands (sample_manager two_tasks)))
     = [False, True, False]"
proof -
  have s: "list_all completion_safe sample_commands"
    by (simp add: sample_commands_def options_ok_def default_options_def or_null_def or_false_def)
  have h: "list_all completion_ok (tasks (sample_manager two_tasks))"
    by (simp add: sample_manager_def two_tasks_def sample_task_def completion_ok_def)
  have r: "map t_completed (tasks (run sample_commands (sample_manager two_tasks))) = [True, False, True]"
    by (simp add: sample_commands_def sample_manager_def two_tasks_def sample_task_def
        default_options_def addTask_def updateTask_def toggleTask_def getTask_def Let_def split_beta
        new_Task_fields or_gen_def or_false_def updateText_def setPriority_def toggle_def
        trim_def white_space_def)
  have n: "map (\<lambda>t. t_completedAt t = None) (tasks (run sample_commands (sample_manager two_tasks)))
     = [False, True, False]"
    by (simp add: sample_commands_def sample_manager_def two_tasks_def sample_task_def
        default_options_def addTask_def updateTask_def toggleTask_def getTask_def Let_def split_beta
        new_Task_fields or_gen_def or_false_def or_null_def updateText_def setPriority_def toggle_def
        trim_def white_space_def)
  from completedAt_iff_completed [of _ _ _ _ sample_commands "sample_manager two_tasks"] s h
  have 1: "list_all completion_ok (tasks (run sample_commands (sample_manager two_tasks)))"
    by blast
  from s h 1 r n show ?thesis by blast
qed

section \<open>Toggling a task twice\<close>

lemma findIndex_first:
  "i < length xs \<Longrightarrow> P (xs ! i) \<Longrightarrow> \<forall>x \<in> set (take i xs). \<not> P x \<Longrightarrow> findIndex P xs = Some i"
proof (induction xs arbitrary: i)
  case Nil
  then show ?case by simp
next
  case (Cons x xs)
  show ?case
  proof (cases i)
    case 0
    with Cons.prems show ?thesis by simp
  next
    case (Suc k)
    with Cons.prems have "\<not> P x" "findIndex P xs = Some k"
      by (simp_all add: Cons.IH)
    with Suc show ?thesis by simp
  qed
qed

lemma storage_saveTasks_clock [simp]:
  "reads (snd (storage_saveTasks ds w)) = reads w + 2"
  "clock (snd (storage_saveTasks ds w)) = clock w"
  by (simp_all add: storage_saveTasks_def Let_def split_beta)

lemma toggleTask_at:
  assumes "findIndex (\<lambda>t. t_id t = taskId) (tasks m) = Some i"
  shows "tasks (snd (toggleTask taskId m)) = (tasks m)[i := fst (toggle (tasks m ! i) (env m))]"
    and "reads (env (snd (toggleTask taskId m))) = reads (snd (toggle (tasks m ! i) (env m))) + 2"
    and "clock (env (snd (toggleTask taskId m))) = clock (env m)"
  using assms
  by (simp_all add: toggleTask_def getTask_def updateTask_def Let_def split_beta saveTasks_def
      toggle_fields)

lemma toggleTask_first:
  assumes "i < length (tasks m)"
    and "t_id (tasks m ! i) \<notin> t_id ` set (take i (tasks m))"
  shows "tasks (snd (toggleTask (t_id (tasks m ! i)) m)) =
           (tasks m)[i := fst (toggle (tasks m ! i) (env m))]"
    and "reads (env (snd (toggleTask (t_id (tasks m ! i)) m))) =
           reads (env m) + (if t_completed (tasks m ! i) then 3 else 4)"
    and "clock (env (snd (toggleTask (t_id (tasks m ! i)) m))) = clock (env m)"
proof -
  have "\<forall>x \<in> set (take i (tasks m)). \<not> t_id x = t_id (tasks m ! i)"
  proof (intro ballI notI)
    fix x
    assume "x \<in> set (take i (tasks m))" and "t_id x = t_id (tasks m ! i)"
    then have "t_id (tasks m ! i) \<in> t_id ` set (take i (tasks m))" by (metis imageI)
    with assms(2) show False by contradiction
  qed
  with assms(1) have "findIndex (\<lambda>t. t_id t = t_id (tasks m ! i)) (tasks m) = Some i"
    by (intro findIndex_first) simp_all
  then show "tasks (snd (toggleTask (t_id (tasks m ! i)) m)) =
           (tasks m)[i := fst (toggle (tasks m ! i) (env m))]"
    and "reads (env (snd (toggleTask (t_id (tasks m ! i)) m))) =
           reads (env m) + (if t_completed (tasks m ! i) then 3 else 4)"
    and "clock (env (snd (toggleTask (t_id (tasks m ! i)) m))) = clock (env m)"
    by (simp_all add: toggleTask_at toggle_fields)
qed

text \<open>
  Claim C4, as the code has it. Let \<open>t\<close> be a task of the collection that no earlier task
  shares its id with (\<open>toggleTask\<close> finds the first task with the id). Then
  \<open>toggleTask(t.id)\<close> flips \<open>t.completed\<close>, and a second call brings \<open>completed\<close> back to
  its value; when \<open>t\<close> had \<open>completedAt\<close> non-null if and only if \<open>completed\<close>, the second
  call also brings back whether \<open>completedAt\<close> is \<open>null\<close>. Each call sets \<open>updatedAt\<close> to
  the clock's reading, the second call's reading being a later one than the first's. No
  other task changes.
\<close>

theorem toggleTask_twice:
  assumes "i < length (tasks m)"
    and "t_id (tasks m ! i) \<notin> t_id ` set (take i (tasks m))"
  shows "let t = tasks m ! i;
             m1 = snd (toggleTask (t_id t) m);
             m2 = snd (toggleTask (t_id t) m1);
             k1 = reads (env m) + (if t_completed t then 0 else 1);
             k2 = k1 + 3 + (if t_completed t then 1 else 0)
         in t_completed (tasks m1 ! i) = (\<not> t_completed t) \<and>
            t_completed (tasks m2 ! i) = t_completed t \<and>
            (completion_ok t \<longrightarrow>
               (t_completedAt (tasks m2 ! i) = None) = (t_completedAt t = None)) \<and>
            t_updatedAt (tasks m1 ! i) = toISOString (clock (env m) k1) \<and>
            t_updatedAt (tasks m2 ! i) = toISOString (clock (env m) k2) \<and>
            k1 < k2 \<and>
            length (tasks m2) = length (tasks m) \<and>
            (\<forall>j < length (tasks m). j \<noteq> i \<longrightarrow>
               tasks m1 ! j = tasks m ! j \<and> tasks m2 ! j = tasks m ! j)"
proof -
  define t where "t = tasks m ! i"
  define t1 where "t1 = fst (toggle t (env m))"
  define m1 where "m1 = snd (toggleTask (t_id t) m)"
  define m2 where "m2 = snd (toggleTask (t_id t) m1)"
  have a1: "tasks m1 = (tasks m)[i := t1]"
    and r1: "reads (env m1) = reads (env m) + (if t_completed t then 3 else 4)"
    and c1: "clock (env m1) = clock (env m)"
    using toggleTask_first [OF assms] by (simp_all add: m1_def t_def t1_def)
  have i1: "i < length (tasks m1)" and n1: "tasks m1 ! i = t1"
    using assms(1) a1 by simp_all
  have id1: "t_id t1 = t_id t" by (simp add: t1_def toggle_fields)
  have tk: "take i (tasks m1) = take i (tasks m)" using a1 by simp
  have f1: "t_id (tasks m1 ! i) \<notin> t_id ` set (take i (tasks m1))"
    using assms(2) by (simp add: n1 id1 tk t_def)
  have a2: "tasks m2 = (tasks m1)[i := fst (toggle t1 (env m1))]"
    using toggleTask_first(1) [OF i1 f1] by (simp add: m2_def n1 id1)
  have n2: "tasks m2 ! i = fst (toggle t1 (env m1))"
    using i1 a2 by simp
  have 1: "t_completed (tasks m1 ! i) = (\<not> t_completed t)"
    by (simp add: n1 t1_def toggle_fields)
  have 2: "t_completed (tasks m2 ! i) = t_completed t"
    by (simp add: n2 t1_def toggle_fields)
  have 3: "completion_ok t \<longrightarrow> (t_completedAt (tasks m2 ! i) = None) = (t_completedAt t = None)"
    by (auto simp: n2 t1_def toggle_fields completion_ok_def)
  have 4: "t_updatedAt (tasks m1 ! i) =
      toISOString (clock (env m) (reads (env m) + (if t_completed t then 0 else 1)))"
    by (simp add: n1 t1_def toggle_fields)
  have 5: "t_updatedAt (tasks m2 ! i) =
      toISOString (clock (env m)
        (reads (env m) + (if t_completed t then 0 else 1) + 3 + (if t_completed t then 1 else 0)))"
    by (simp add: n2 toggle_fields r1 c1) (simp add: t1_def toggle_fields add.commute)
  have 6: "length (tasks m2) = length (tasks m)" using a1 a2 by simp
  have 7: "\<forall>j < length (tasks m). j \<noteq> i \<longrightarrow>
      tasks m1 ! j = tasks m ! j \<and> tasks m2 ! j = tasks m ! j"
    using a1 a2 by simp
  from 1 2 3 4 5 6 7 show ?thesis
    unfolding Let_def t_def [symmetric] m1_def [symmetric] m2_def [symmetric] by simp
qed

text \<open>
  The claim as stated covers every task of the collection. A task added as
  \<open>addTask('Buy milk', {id: 'a', completed: true})\<close> is completed with a \<open>null\<close>
  \<open>completedAt\<close>, and after two toggles its \<open>completedAt\<close> is a timestamp. And of two tasks
  with the same id, \<open>toggleTask\<close> flips the first: the second keeps its \<open>completed\<close>.
\<close>

theorem toggleTask_twice_counterexample:
  "t_completed (tasks (snd (addTask ''Buy milk''
       (default_options\<lparr>o_id := Some ''a'', o_completed := Some True\<rparr>) (sample_manager []))) ! 0) \<and>
   t_completedAt (tasks (snd (addTask ''Buy milk''
       (default_options\<lparr>o_id := Some ''a'', o_completed := Some True\<rparr>) (sample_manager []))) ! 0)
     = None \<and>
   t_completedAt (tasks (snd (toggleTask ''a'' (snd (toggleTask ''a'' (snd (addTask ''Buy milk''
       (default_options\<lparr>o_id := Some ''a'', o_completed := Some True\<rparr>) (sample_manager []))))))) ! 0)
     \<noteq> None \<and>
   t_id (sample_task ''x'' ''Second'' False None) = ''x'' \<and>
   t_completed (tasks (sample_manager
       [sample_task ''x'' ''First'' False None, sample_task ''x'' ''Second'' False None]) ! 1) = False \<and>
   t_completed (tasks (snd (toggleTask ''x'' (sample_manager
       [sample_task ''x'' ''First'' False None, sample_task ''x'' ''Second'' False None]))) ! 1) = False"
  by (simp add: addTask_def toggleTask_def getTask_def updateTask_def Let_def split_beta
      new_Task_fields or_gen_def or_false_def or_null_def toggle_def trim_def white_space_def
      default_options_def sample_manager_def sample_task_def)

theorem toggleTask_twice_witness:
  "(1::nat) < length (tasks (sample_manager two_tasks)) \<and>
   t_id (tasks (sample_manager two_tasks) ! 1) \<notin> t_id ` set (take 1 (tasks (sample_manager two_tasks))) \<and>
   t_id (tasks (sample_manager two_tasks) ! 1) = ''b'' \<and>
   completion_ok (tasks (sample_manager two_tasks) ! 1) \<and>
   t_completed (tasks (sample_manager two_tasks) ! 1) \<and>
   \<not> t_completed (tasks (snd (toggleTask ''b'' (sample_manager two_tasks))) ! 1) \<and>
   t_completed (tasks (snd (toggleTask ''b'' (snd (toggleTask ''b'' (sample_manager two_tasks))))) ! 1) \<and>
   t_completedAt (tasks (snd (toggleTask ''b'' (snd (toggleTask ''b'' (sample_manager two_tasks))))) ! 1)
     \<noteq> None \<and>
   t_updatedAt (tasks (snd (toggleTask ''b'' (sample_manager two_tasks))) ! 1) = toISOString 0 \<and>
   t_updatedAt (tasks (snd (toggleTask ''b'' (snd (toggleTask ''b'' (sample_manager two_tasks))))) ! 1)
     = toISOString 4000"
proof -
  have l: "(1::nat) < length (tasks (sample_manager two_tasks))"
    and f: "t_id (tasks (sample_manager two_tasks) ! 1) \<notin>
            t_id ` set (take 1 (tasks (sample_manager two_tasks)))"
    and b: "t_id (tasks (sample_manager two_tasks) ! 1) = ''b''"
    and c: "completion_ok (tasks (sample_manager two_tasks) ! 1)"
    and d: "t_completed (tasks (sample_manager two_tasks) ! 1)"
    and e: "t_completedAt (tasks (sample_manager two_tasks) ! 1) \<noteq> None"
    and r: "reads (env (sample_manager two_tasks)) = 0"
    and k: "clock (env (sample_manager two_tasks)) = (\<lambda>i. 1000 * i)"
    by (simp_all add: sample_manager_def two_tasks_def sample_task_def completion_ok_def
        sample_world_def)
  from toggleTask_twice [OF l f] b c d e r k show ?thesis
    using l f by (simp add: Let_def)
qed

end
